theory Spec2Isabelle
  imports Complex_Main "HOL-Library.Multiset"
begin

section \<open>Configuration\<close>

text \<open>The constants of class \<open>Config\<close> that the indexing and retrieval core reads.\<close>

definition CHUNK_SIZE :: nat where "CHUNK_SIZE = 800"
definition CHUNK_OVERLAP :: nat where "CHUNK_OVERLAP = 150"
definition SEARCH_RESULTS :: nat where "SEARCH_RESULTS = 13"
definition CACHE_DURATION_DAYS :: int where "CACHE_DURATION_DAYS = 90"
definition BATCH_SIZE :: nat where "BATCH_SIZE = 32"
definition MAX_RETRIES :: nat where "MAX_RETRIES = 2"

section \<open>Python string primitives\<close>

text \<open>
  A Python \<open>str\<close> is modelled as a \<open>string\<close>, one \<open>char\<close> per code point, so that
  \<open>length\<close> is Python's \<open>len\<close>. \<open>isspace\<close> is \<open>str.isspace\<close> on the code points
  below 256: TAB to CR, FS to US, SPACE, NEL and NBSP.
\<close>

definition isspace :: "char \<Rightarrow> bool" where
  "isspace c = (let n = (of_char c :: nat) in
     (9 \<le> n \<and> n \<le> 13) \<or> (28 \<le> n \<and> n \<le> 32) \<or> n = 133 \<or> n = 160)"

text \<open>\<open>s.strip()\<close>: leading and trailing whitespace removed.\<close>

definition strip :: "string \<Rightarrow> string" where
  "strip s = rev (dropWhile isspace (rev (dropWhile isspace s)))"

text \<open>\<open>s.split()\<close>: the maximal runs of non-whitespace characters, in order.
  \<open>split_acc cur s\<close> scans \<open>s\<close> with the word read so far in \<open>cur\<close>.\<close>

fun split_acc :: "string \<Rightarrow> string \<Rightarrow> string list" where
  "split_acc cur [] = (if cur = [] then [] else [cur])"
| "split_acc cur (c # cs) =
     (if isspace c then (if cur = [] then split_acc [] cs else cur # split_acc [] cs)
      else split_acc (cur @ [c]) cs)"

definition split_ws :: "string \<Rightarrow> string list" where
  "split_ws s = split_acc [] s"

text \<open>\<open>' '.join(xs)\<close>.\<close>

fun join_sp :: "string list \<Rightarrow> string" where
  "join_sp [] = []"
| "join_sp [x] = x"
| "join_sp (x # y # ys) = x @ '' '' @ join_sp (y # ys)"

text \<open>The slice \<open>xs[-k:]\<close> for \<open>k \<ge> 0\<close>: the last \<open>k\<close> elements, and the whole list when
  \<open>k = 0\<close> (Python reads \<open>xs[-0:]\<close> as \<open>xs[0:]\<close>) or \<open>k\<close> exceeds the length.\<close>

definition neg_slice :: "nat \<Rightarrow> 'a list \<Rightarrow> 'a list" where
  "neg_slice k xs = (if k = 0 then xs else drop (length xs - k) xs)"

section \<open>Sentence splitting\<close>

text \<open>
  The regular-expression fallback \<open>re.split(r'(?<=[.!?])\<bsol>s+', text)\<close>: the text is cut at
  every maximal run of whitespace that directly follows one of \<open>.\<close>, \<open>!\<close>, \<open>?\<close>.
  \<open>skip\<close> is set while such a run is being consumed; \<open>cur\<close> is the piece read so far.
\<close>

definition is_terminator :: "char \<Rightarrow> bool" where
  "is_terminator c = (c = CHR ''.'' \<or> c = CHR ''!'' \<or> c = CHR ''?'')"

fun re_split_go :: "bool \<Rightarrow> string \<Rightarrow> string \<Rightarrow> string list" where
  "re_split_go skip cur [] = [cur]"
| "re_split_go skip cur (c # cs) =
     (if isspace c \<and> skip then re_split_go True cur cs
      else if isspace c \<and> cur \<noteq> [] \<and> is_terminator (last cur) then cur # re_split_go True [] cs
      else re_split_go False (cur @ [c]) cs)"

definition re_split :: "string \<Rightarrow> string list" where
  "re_split txt = re_split_go False [] txt"

text \<open>
  \<open>sent_tokenize\<close> is NLTK's tokenizer, outside the repository: it is a parameter that
  returns \<open>None\<close> when the call raises. Lines 255-258: the fallback runs on any exception.
\<close>

definition split_sentences :: "(string \<Rightarrow> string list option) \<Rightarrow> string \<Rightarrow> string list" where
  "split_sentences sent_tokenize txt =
     (case sent_tokenize txt of Some sentences \<Rightarrow> sentences | None \<Rightarrow> re_split txt)"

text \<open>A tokenizer that is not available: every call raises.\<close>

definition tokenizer_unavailable :: "string \<Rightarrow> string list option" where
  "tokenizer_unavailable txt = None"

section \<open>The chunker\<close>

text \<open>A chunk is the dictionary of lines 279-283; its key \<open>'text'\<close> is the field
  \<open>chunk_text\<close>.\<close>

record chunk =
  chunk_text :: string
  source :: string
  chunk_id :: nat

record chunker_state =
  chunks :: "chunk list"
  current_chunk :: "string list"
  current_length :: nat

text \<open>Lines 274-277 and 300-303: the word window of the previous emitted chunk is put in
  front of the text of the chunk being closed.\<close>

definition add_overlap :: "chunk list \<Rightarrow> string \<Rightarrow> string" where
  "add_overlap chs txt =
     (if chs \<noteq> [] \<and> CHUNK_OVERLAP > 0 then
        (let prev_chunk_words = split_ws (chunk_text (last chs));
             overlap_words = neg_slice (min (CHUNK_OVERLAP div 5) (length prev_chunk_words))
                                prev_chunk_words
         in join_sp overlap_words @ '' '' @ txt)
      else txt)"

text \<open>Lines 271-283 and 299-309: close the running chunk and append it.\<close>

definition emit :: "string \<Rightarrow> chunk list \<Rightarrow> string list \<Rightarrow> chunk list" where
  "emit src chs cur =
     chs @ [\<lparr>chunk_text = add_overlap chs (join_sp cur), source = src, chunk_id = length chs\<rparr>]"

text \<open>One iteration of the loop of lines 263-295.\<close>

definition chunk_step :: "string \<Rightarrow> chunker_state \<Rightarrow> string \<Rightarrow> chunker_state" where
  "chunk_step src st raw =
     (let sentence = strip raw in
      if sentence = [] then st
      else
        let sentence_length = length sentence in
        if current_length st + sentence_length > CHUNK_SIZE \<and> current_chunk st \<noteq> [] then
          (let chs = emit src (chunks st) (current_chunk st) in
           if CHUNK_OVERLAP > 0 then
             (let overlap_sentences =
                    neg_slice (min 2 (length (current_chunk st))) (current_chunk st);
                  cur = overlap_sentences @ [sentence]
              in \<lparr>chunks = chs, current_chunk = cur,
                  current_length = sum_list (map length cur)\<rparr>)
           else \<lparr>chunks = chs, current_chunk = [sentence], current_length = sentence_length\<rparr>)
        else \<lparr>chunks = chunks st, current_chunk = current_chunk st @ [sentence],
               current_length = current_length st + sentence_length\<rparr>)"

definition chunker_init :: chunker_state where
  "chunker_init = \<lparr>chunks = [], current_chunk = [], current_length = 0\<rparr>"

text \<open>Lines 297-311: the last running chunk is emitted when it is not empty.\<close>

definition chunker_finish :: "string \<Rightarrow> chunker_state \<Rightarrow> chunk list" where
  "chunker_finish src st =
     (if current_chunk st \<noteq> [] then emit src (chunks st) (current_chunk st) else chunks st)"

definition smart_chunk_text ::
  "(string \<Rightarrow> string list option) \<Rightarrow> string \<Rightarrow> string \<Rightarrow> chunk list" where
  "smart_chunk_text sent_tokenize txt src =
     chunker_finish src (foldl (chunk_step src) chunker_init (split_sentences sent_tokenize txt))"

subsection \<open>Core content of the chunks\<close>

text \<open>
  The core content of a chunk is the list of sentences in \<open>current_chunk\<close> at the moment the
  chunk is closed, before the word window is put in front of the joined text. The source
  does not keep it; \<open>cores_step\<close> runs the loop of \<open>chunk_step\<close> and records it beside
  the state, and \<open>smart_chunk_cores\<close> adds the core of the last chunk.
\<close>

definition closes :: "chunker_state \<Rightarrow> string \<Rightarrow> bool" where
  "closes st raw =
     (strip raw \<noteq> [] \<and> current_length st + length (strip raw) > CHUNK_SIZE
      \<and> current_chunk st \<noteq> [])"

definition cores_step ::
  "string \<Rightarrow> chunker_state \<times> string list list \<Rightarrow> string \<Rightarrow> chunker_state \<times> string list list" where
  "cores_step src p raw =
     (chunk_step src (fst p) raw,
      if closes (fst p) raw then snd p @ [current_chunk (fst p)] else snd p)"

definition cores_finish :: "chunker_state \<times> string list list \<Rightarrow> string list list" where
  "cores_finish p = (if current_chunk (fst p) \<noteq> [] then snd p @ [current_chunk (fst p)] else snd p)"

definition smart_chunk_cores ::
  "(string \<Rightarrow> string list option) \<Rightarrow> string \<Rightarrow> string \<Rightarrow> string list list" where
  "smart_chunk_cores sent_tokenize txt src =
     cores_finish (foldl (cores_step src) (chunker_init, []) (split_sentences sent_tokenize txt))"

text \<open>The sentences the loop keeps (lines 264-266): stripped, the empty ones skipped.\<close>

definition kept_sentences :: "(string \<Rightarrow> string list option) \<Rightarrow> string \<Rightarrow> string list" where
  "kept_sentences sent_tokenize txt =
     filter (\<lambda>s. s \<noteq> []) (map strip (split_sentences sent_tokenize txt))"

text \<open>
  The cores with the seeded sentences taken off: a core after the first starts with the
  last \<open>min 2 n\<close> sentences of the core before it, \<open>n\<close> that core's length.
\<close>

fun unseed :: "nat \<Rightarrow> string list list \<Rightarrow> string list" where
  "unseed k [] = []"
| "unseed k (c # cs) = drop k c @ unseed (min 2 (length c)) cs"

text \<open>Whether the seeding holds along a list of cores: each core after the first starts
  with the slice \<open>current_chunk[-min(2, len(current_chunk)):]\<close> of the core before it.\<close>

fun seeds_match :: "string list list \<Rightarrow> bool" where
  "seeds_match (c # d # cs) =
     (take (min 2 (length c)) d = neg_slice (min 2 (length c)) c \<and> seeds_match (d # cs))"
| "seeds_match cs = True"

subsection \<open>Loop invariants\<close>

definition nonblank :: "string \<Rightarrow> bool" where
  "nonblank s = (\<exists>c\<in>set s. \<not> isspace c)"

text \<open>The emitted chunks and the recorded cores agree: the text of chunk \<open>i\<close> is the joined
  core \<open>i\<close> behind the word window of the chunks emitted before it.\<close>

definition linked :: "chunk list \<Rightarrow> string list list \<Rightarrow> bool" where
  "linked chs cs = (length chs = length cs
     \<and> (\<forall>i<length cs. chunk_text (chs ! i) = add_overlap (take i chs) (join_sp (cs ! i)))
     \<and> (\<forall>c\<in>set cs. c \<noteq> [] \<and> (\<forall>s\<in>set c. nonblank s)))"

definition link_inv :: "chunker_state \<times> string list list \<Rightarrow> bool" where
  "link_inv p = (linked (chunks (fst p)) (snd p) \<and> (\<forall>s\<in>set (current_chunk (fst p)). nonblank s))"

definition seed_count :: "string list list \<Rightarrow> nat" where
  "seed_count cs = (if cs = [] then 0 else min 2 (length (last cs)))"

definition seed_inv :: "chunker_state \<times> string list list \<Rightarrow> string list \<Rightarrow> bool" where
  "seed_inv p kept =
     (let cs = snd p; cur = current_chunk (fst p) in
        (cs \<noteq> [] \<longrightarrow> cur \<noteq> []) \<and> (\<forall>c\<in>set cs. c \<noteq> [])
        \<and> seed_count cs \<le> length cur
        \<and> seeds_match (cs @ [cur])
        \<and> unseed 0 (cs @ [cur]) = kept
        \<and> set (concat (cs @ [cur])) = set kept)"

definition size_inv :: "chunker_state \<times> string list list \<Rightarrow> bool" where
  "size_inv p =
     (let cs = snd p; cur = current_chunk (fst p) in
        current_length (fst p) = sum_list (map length cur)
        \<and> (\<forall>i<length cs. sum_list (map length (cs ! i)) \<le> CHUNK_SIZE
                \<or> length (cs ! i) \<le> (if i = 0 then 1 else 3))
        \<and> (sum_list (map length cur) \<le> CHUNK_SIZE
                \<or> length cur \<le> (if cs = [] then 1 else 3)))"

subsection \<open>A document of two long sentences\<close>

definition long_a :: string where "long_a = replicate 500 CHR ''a'' @ ''.''"
definition long_b :: string where "long_b = replicate 500 CHR ''b'' @ ''.''"

section \<open>The index and the libraries around it\<close>

text \<open>
  The attributes of \<open>InstitutionalPDFChatbot\<close> that the indexing and retrieval core reads
  and writes. \<open>pdf_contents\<close> is the dictionary from file name to text, in insertion
  order. The embedding matrix and the TF-IDF matrix are lists of rows; \<open>None\<close> is
  Python's \<open>None\<close>.
\<close>

record ('v, 'k, 'r) chatbot =
  pdf_contents :: "(string \<times> string) list"
  text_chunks :: "chunk list"
  chunk_embeddings :: "'v list option"
  tfidf_vectorizer :: "'k option"
  tfidf_matrix :: "'r list option"

text \<open>
  The libraries the class calls are not part of the repository; they are parameters.
  A call that raises returns \<open>None\<close>.
  \<^item> \<open>tokenizer\<close>: \<open>nltk.sent_tokenize\<close>.
  \<^item> \<open>encode_query a q\<close>: \<open>embedding_model.encode(q)\<close> at attempt \<open>a\<close> of the retry loop.
  \<^item> \<open>encode_batch i a b\<close>: \<open>embedding_model.encode(b)\<close> for the batch that starts at
    chunk \<open>i\<close>, at attempt \<open>a\<close>; one row per text.
  \<^item> \<open>cosine q e\<close>: the cosine similarity of two embedding vectors, a row of
    \<open>util.cos_sim\<close>.
  \<^item> \<open>unfitted_vectorizer\<close>: the object \<open>TfidfVectorizer(...)\<close> of lines 320-326;
    \<open>fit_transform\<close>: its method, which returns the fitted vectorizer and the matrix,
    one row per text; \<open>transform\<close>: the method of the fitted vectorizer;
    \<open>row_cosine\<close>: a row of \<open>sklearn\<close>'s \<open>cosine_similarity\<close>.
  \<^item> \<open>argsort\<close>: \<open>np.argsort\<close> with its default sorting kind.
  \<^item> \<open>md5_hexdigest\<close>: \<open>hashlib.md5(s.encode('utf-8')).hexdigest()\<close>.
  \<^item> \<open>fromisoformat\<close>: \<open>datetime.fromisoformat\<close>, as microseconds on the local clock.
\<close>

record ('v, 'k, 'r) library =
  tokenizer :: "string \<Rightarrow> string list option"
  encode_query :: "nat \<Rightarrow> string \<Rightarrow> 'v option"
  encode_batch :: "nat \<Rightarrow> nat \<Rightarrow> string list \<Rightarrow> 'v list option"
  cosine :: "'v \<Rightarrow> 'v \<Rightarrow> real option"
  unfitted_vectorizer :: 'k
  fit_transform :: "string list \<Rightarrow> ('k \<times> 'r list) option"
  transform :: "'k \<Rightarrow> string \<Rightarrow> 'r option"
  row_cosine :: "'r \<Rightarrow> 'r \<Rightarrow> real option"
  argsort :: "real list \<Rightarrow> nat list"
  md5_hexdigest :: "string \<Rightarrow> string"
  fromisoformat :: "string \<Rightarrow> int option"

text \<open>
  The retries of lines 353-368 and 390-401: \<open>for attempt in range(MAX_RETRIES)\<close>, leave
  at the first attempt that does not raise. \<open>retry_from call attempt n\<close> runs \<open>n\<close> more
  attempts; \<open>None\<close> means that every attempt raised.
\<close>

fun retry_from :: "(nat \<Rightarrow> 'a option) \<Rightarrow> nat \<Rightarrow> nat \<Rightarrow> 'a option" where
  "retry_from call attempt 0 = None"
| "retry_from call attempt (Suc n) =
     (case call attempt of Some v \<Rightarrow> Some v | None \<Rightarrow> retry_from call (Suc attempt) n)"

definition with_retries :: "(nat \<Rightarrow> 'a option) \<Rightarrow> 'a option" where
  "with_retries call = retry_from call 0 MAX_RETRIES"

section \<open>Hybrid search\<close>

text \<open>Lines 388-401: the question is encoded with retries.\<close>

definition encode_question :: "('v, 'k, 'r) library \<Rightarrow> string \<Rightarrow> 'v option" where
  "encode_question lib question = with_retries (\<lambda>attempt. encode_query lib attempt question)"

record scored_chunk = chunk +
  semantic_score :: real
  keyword_score :: real
  combined_score :: real

text \<open>The copy of a chunk with its three scores (lines 428-431).\<close>

definition scored :: "chunk \<Rightarrow> real \<Rightarrow> real \<Rightarrow> real \<Rightarrow> scored_chunk" where
  "scored c s k b = \<lparr>chunk_text = chunk_text c, source = source c, chunk_id = chunk_id c,
                     semantic_score = s, keyword_score = k, combined_score = b\<rparr>"

text \<open>\<open>xs[idx]\<close> for an index that is not negative: \<open>None\<close> is the IndexError.\<close>

definition nth_opt :: "'a list \<Rightarrow> nat \<Rightarrow> 'a option" where
  "nth_opt xs idx = (if idx < length xs then Some (xs ! idx) else None)"

text \<open>The sum of two one-dimensional arrays under numpy's broadcasting: equal lengths add
  elementwise, an array of length one is stretched, any other pair of shapes raises.\<close>

definition np_add :: "real list \<Rightarrow> real list \<Rightarrow> real list option" where
  "np_add xs ys =
     (if length xs = length ys then Some (map2 (+) xs ys)
      else if length xs = 1 then Some (map (\<lambda>y. hd xs + y) ys)
      else if length ys = 1 then Some (map (\<lambda>x. x + hd ys) xs)
      else None)"

text \<open>Line 404: \<open>util.cos_sim(question_embedding, self.chunk_embeddings)[0]\<close>, one cosine
  per row.\<close>

definition cos_sim :: "('v, 'k, 'r) library \<Rightarrow> 'v \<Rightarrow> 'v list \<Rightarrow> real list option" where
  "cos_sim lib question_embedding embeddings = those (map (cosine lib question_embedding) embeddings)"

text \<open>Lines 407-411: zeros, replaced by the TF-IDF cosines when the vectorizer and the
  matrix are both there.\<close>

definition keyword_search ::
  "('v, 'k, 'r) library \<Rightarrow> ('v, 'k, 'r) chatbot \<Rightarrow> string \<Rightarrow> real list option" where
  "keyword_search lib self question =
     (case (tfidf_vectorizer self, tfidf_matrix self) of
        (Some vectorizer, Some matrix) \<Rightarrow>
          (case transform lib vectorizer question of
             None \<Rightarrow> None
           | Some question_tfidf \<Rightarrow> those (map (row_cosine lib question_tfidf) matrix))
      | _ \<Rightarrow> Some (replicate (length (text_chunks self)) 0))"

definition semantic_weight :: real where "semantic_weight = 0.7"
definition keyword_weight :: real where "keyword_weight = 0.3"

text \<open>Lines 417-421.\<close>

definition combine :: "real list \<Rightarrow> real list \<Rightarrow> real list option" where
  "combine semantic_scores keyword_scores =
     (let semantic_scores_norm = map (\<lambda>s. (s + 1) / 2) semantic_scores;
          keyword_scores_norm = keyword_scores
      in np_add (map (\<lambda>s. semantic_weight * s) semantic_scores_norm)
                (map (\<lambda>k. keyword_weight * k) keyword_scores_norm))"

text \<open>Line 424: \<open>np.argsort(combined_scores)[-Config.SEARCH_RESULTS:][::-1]\<close>.\<close>

definition top_indices :: "(real list \<Rightarrow> nat list) \<Rightarrow> real list \<Rightarrow> nat list" where
  "top_indices np_argsort combined_scores =
     rev (neg_slice SEARCH_RESULTS (np_argsort combined_scores))"

text \<open>Lines 428-432, for one index.\<close>

definition score_chunk ::
  "chunk list \<Rightarrow> real list \<Rightarrow> real list \<Rightarrow> real list \<Rightarrow> nat \<Rightarrow> scored_chunk option" where
  "score_chunk chs semantic_scores keyword_scores combined_scores idx =
     (case (nth_opt chs idx, nth_opt semantic_scores idx, nth_opt keyword_scores idx,
            nth_opt combined_scores idx) of
        (Some c, Some s, Some k, Some b) \<Rightarrow>
          Some \<lparr>chunk_text = chunk_text c, source = source c, chunk_id = chunk_id c,
                semantic_score = s, keyword_score = k, combined_score = b\<rparr>
      | _ \<Rightarrow> None)"

text \<open>Lines 403-432: the scores of all chunks, \<open>None\<close> when a step raises.\<close>

definition all_scores ::
  "('v, 'k, 'r) library \<Rightarrow> ('v, 'k, 'r) chatbot \<Rightarrow> 'v list \<Rightarrow> 'v \<Rightarrow> string
     \<Rightarrow> (real list \<times> real list \<times> real list) option" where
  "all_scores lib self embeddings question_embedding question =
     (case cos_sim lib question_embedding embeddings of
        None \<Rightarrow> None
      | Some semantic_scores \<Rightarrow>
          (case keyword_search lib self question of
             None \<Rightarrow> None
           | Some keyword_scores \<Rightarrow>
               (case combine semantic_scores keyword_scores of
                  None \<Rightarrow> None
                | Some combined_scores \<Rightarrow> Some (semantic_scores, keyword_scores, combined_scores))))"

text \<open>The chunks selected by lines 423-432, before the relevance floor.\<close>

definition selected_chunks ::
  "('v, 'k, 'r) library \<Rightarrow> ('v, 'k, 'r) chatbot \<Rightarrow> 'v list \<Rightarrow> 'v \<Rightarrow> string
     \<Rightarrow> scored_chunk list option" where
  "selected_chunks lib self embeddings question_embedding question =
     (case all_scores lib self embeddings question_embedding question of
        None \<Rightarrow> None
      | Some (semantic_scores, keyword_scores, combined_scores) \<Rightarrow>
          those (map (score_chunk (text_chunks self) semantic_scores keyword_scores combined_scores)
                     (top_indices (argsort lib) combined_scores)))"

definition relevance_floor :: real where "relevance_floor = 0.15"

text \<open>Lines 382-441. Every \<open>None\<close> of the body is an exception caught by the handler of
  line 440, which returns the empty list; so does the last failed encoding attempt.\<close>

definition hybrid_search ::
  "('v, 'k, 'r) library \<Rightarrow> ('v, 'k, 'r) chatbot \<Rightarrow> string \<Rightarrow> scored_chunk list" where
  "hybrid_search lib self question =
     (case chunk_embeddings self of
        None \<Rightarrow> []
      | Some embeddings \<Rightarrow>
          if length (text_chunks self) = 0 then []
          else
            (case encode_question lib question of
               None \<Rightarrow> []
             | Some question_embedding \<Rightarrow>
                 (case selected_chunks lib self embeddings question_embedding question of
                    None \<Rightarrow> []
                  | Some relevant_chunks \<Rightarrow>
                      filter (\<lambda>c. combined_score c > relevance_floor) relevant_chunks)))"

text \<open>An argsort that keeps equal scores in index order (insertion sort on the pairs of
  score and index): what a stable sorting kind returns.\<close>

definition stable_argsort :: "real list \<Rightarrow> nat list" where
  "stable_argsort xs = map snd (sort_key fst (zip xs [0..<length xs]))"

text \<open>What it takes to be an ascending argsort of \<open>xs\<close>: the indices of \<open>xs\<close>, each once,
  in an order in which the scores do not decrease.\<close>

definition is_argsort :: "real list \<Rightarrow> nat list \<Rightarrow> bool" where
  "is_argsort xs idxs = (mset idxs = mset [0..<length xs] \<and> sorted (map (\<lambda>i. xs ! i) idxs))"

section \<open>A small library and small indexes, for running the model\<close>

text \<open>
  Embeddings are unit vectors of rationals and the cosine of two unit vectors is their dot
  product; every question is encoded as \<open>[1, 0]\<close>. \<open>fit_transform\<close> raises on fewer than
  three texts, as scikit-learn does when \<open>max_df * n_docs < min_df\<close> (here \<open>0.8 * n < 2\<close>,
  from the arguments of lines 320-326). \<open>argsort\<close> is the stable one.
\<close>

definition dot :: "real list \<Rightarrow> real list \<Rightarrow> real" where
  "dot xs ys = sum_list (map2 (*) xs ys)"

definition demo_library :: "(real list, unit, real list) library" where
  "demo_library =
     \<lparr>tokenizer = tokenizer_unavailable,
      encode_query = (\<lambda>attempt question. Some [1, 0]),
      encode_batch = (\<lambda>i attempt batch. Some (map (\<lambda>t. [1, 0]) batch)),
      cosine = (\<lambda>q e. if length q = length e then Some (dot q e) else None),
      unfitted_vectorizer = (),
      fit_transform = (\<lambda>texts. if 8 * length texts < 20 then None
                                else Some ((), map (\<lambda>t. [1]) texts)),
      transform = (\<lambda>vectorizer question. Some [1]),
      row_cosine = (\<lambda>q r. if length q = length r then Some (dot q r) else None),
      argsort = stable_argsort,
      md5_hexdigest = (\<lambda>s. ''0f343b0931126a20f133d67c2b018a3b''),
      fromisoformat = (\<lambda>s. if s = ''1970-01-01T00:00:00'' then Some 0 else None)\<rparr>"

text \<open>The same library with an embedding model that raises on every call.\<close>

definition offline_library :: "(real list, unit, real list) library" where
  "offline_library = demo_library\<lparr>encode_query := (\<lambda>attempt question. None),
                                    encode_batch := (\<lambda>i attempt batch. None)\<rparr>"

definition chunk_of :: "string \<Rightarrow> nat \<Rightarrow> chunk" where
  "chunk_of t n = \<lparr>chunk_text = t, source = ''doc.pdf'', chunk_id = n\<rparr>"

definition empty_index :: "(real list, unit, real list) chatbot" where
  "empty_index = \<lparr>pdf_contents = [], text_chunks = [], chunk_embeddings = None,
                   tfidf_vectorizer = None, tfidf_matrix = None\<rparr>"

definition three_chunk_index :: "(real list, unit, real list) chatbot" where
  "three_chunk_index =
     \<lparr>pdf_contents = [],
      text_chunks = [chunk_of ''Admission rules.'' 0, chunk_of ''Grading policy.'' 1,
                     chunk_of ''Campus map.'' 2],
      chunk_embeddings = Some [[1, 0], [0, 1], [-1, 0]],
      tfidf_vectorizer = None, tfidf_matrix = None\<rparr>"

text \<open>The three chunks with a keyword index: the third chunk scores exactly the floor.\<close>

definition keyword_index :: "(real list, unit, real list) chatbot" where
  "keyword_index =
     three_chunk_index\<lparr>tfidf_vectorizer := Some (), tfidf_matrix := Some [[1], [0], [1/2]]\<rparr>"

text \<open>Two chunks with the same embedding, hence the same combined score.\<close>

definition tied_index :: "(real list, unit, real list) chatbot" where
  "tied_index =
     \<lparr>pdf_contents = [],
      text_chunks = [chunk_of ''Admission rules.'' 0, chunk_of ''Admission rules.'' 1],
      chunk_embeddings = Some [[1, 0], [1, 0]],
      tfidf_vectorizer = None, tfidf_matrix = None\<rparr>"

text \<open>One chunk opposite to every question; one chunk whose embedding has a third
  coordinate, on which the cosine raises.\<close>

definition far_index :: "(real list, unit, real list) chatbot" where
  "far_index = \<lparr>pdf_contents = [], text_chunks = [chunk_of ''Campus map.'' 0],
                 chunk_embeddings = Some [[-1, 0]], tfidf_vectorizer = None, tfidf_matrix = None\<rparr>"

definition misshapen_index :: "(real list, unit, real list) chatbot" where
  "misshapen_index = \<lparr>pdf_contents = [], text_chunks = [chunk_of ''Campus map.'' 0],
                 chunk_embeddings = Some [[1, 0, 0]], tfidf_vectorizer = None, tfidf_matrix = None\<rparr>"

text \<open>Fifteen chunks, two more than \<open>SEARCH_RESULTS\<close>.\<close>

definition large_embeddings :: "real list list" where
  "large_embeddings =
     [[3 / 5, 4 / 5], [4 / 5, 3 / 5], [5 / 13, 12 / 13], [12 / 13, 5 / 13], [8 / 17, 15 / 17],
      [15 / 17, 8 / 17], [7 / 25, 24 / 25], [24 / 25, 7 / 25], [1, 0], [0, 1], [-1, 0],
      [- (3 / 5), 4 / 5], [- (4 / 5), 3 / 5], [20 / 29, 21 / 29], [21 / 29, 20 / 29]]"

definition large_semantic :: "real list" where
  "large_semantic =
     [3 / 5, 4 / 5, 5 / 13, 12 / 13, 8 / 17, 15 / 17, 7 / 25, 24 / 25, 1, 0, -1,
      - (3 / 5), - (4 / 5), 20 / 29, 21 / 29]"

definition large_combined :: "real list" where
  "large_combined =
     [14 / 25, 63 / 100, 63 / 130, 35 / 52, 35 / 68, 56 / 85, 56 / 125, 343 / 500, 7 / 10,
      7 / 20, 0, 7 / 50, 7 / 100, 343 / 580, 35 / 58]"

definition large_index :: "(real list, unit, real list) chatbot" where
  "large_index =
     \<lparr>pdf_contents = [],
      text_chunks = map (chunk_of ''Some passage.'') [0..<15],
      chunk_embeddings = Some large_embeddings,
      tfidf_vectorizer = None, tfidf_matrix = None\<rparr>"

section \<open>Building the index\<close>

text \<open>
  Lines 313-328, \<open>_create_tfidf_index\<close>. The flag is \<open>False\<close> when \<open>fit_transform\<close>
  raises; the attribute \<open>tfidf_vectorizer\<close> has been assigned the new vectorizer by then.
\<close>

definition create_tfidf_index ::
  "('v, 'k, 'r) library \<Rightarrow> ('v, 'k, 'r) chatbot \<Rightarrow> ('v, 'k, 'r) chatbot \<times> bool" where
  "create_tfidf_index lib self =
     (if text_chunks self = [] then (self, True)
      else
        let chunk_texts = map chunk_text (text_chunks self);
            self1 = self\<lparr>tfidf_vectorizer := Some (unfitted_vectorizer lib)\<rparr>
        in case fit_transform lib chunk_texts of
             None \<Rightarrow> (self1, False)
           | Some (vectorizer, matrix) \<Rightarrow>
               (self1\<lparr>tfidf_vectorizer := Some vectorizer, tfidf_matrix := Some matrix\<rparr>, True))"

text \<open>
  Lines 349-368: \<open>for i in range(0, len(chunk_texts), Config.BATCH_SIZE)\<close>, each batch
  \<open>chunk_texts[i:i + BATCH_SIZE]\<close> encoded with retries. \<open>None\<close> is the exception raised
  again at the last attempt.
\<close>

function encode_batches ::
  "('v, 'k, 'r) library \<Rightarrow> nat \<Rightarrow> string list \<Rightarrow> 'v list list option" where
  "encode_batches lib i chunk_texts =
     (if length chunk_texts \<le> i then Some []
      else
        (case with_retries (\<lambda>attempt. encode_batch lib i attempt (take BATCH_SIZE (drop i chunk_texts))) of
           None \<Rightarrow> None
         | Some batch_embeddings \<Rightarrow>
             (case encode_batches lib (i + BATCH_SIZE) chunk_texts of
                None \<Rightarrow> None
              | Some embeddings_list \<Rightarrow> Some (batch_embeddings # embeddings_list))))"
  by pat_completeness auto
termination
  by (relation "measure (\<lambda>(lib, i, chunk_texts). length chunk_texts - i)")
     (auto simp: BATCH_SIZE_def)

declare encode_batches.simps [simp del]

text \<open>Lines 337-339: the chunks of every document, in the order of the dictionary.\<close>

definition built_chunks :: "('v, 'k, 'r) library \<Rightarrow> ('v, 'k, 'r) chatbot \<Rightarrow> chunk list" where
  "built_chunks lib self =
     concat (map (\<lambda>(filename, content). smart_chunk_text (tokenizer lib) content filename)
                 (pdf_contents self))"

text \<open>
  Lines 330-380, \<open>create_chunks_and_embeddings\<close>: the new state and the value returned.
  \<open>torch.cat\<close> raises on an empty list. Every exception of lines 346-376 is caught at
  line 378, which returns \<open>False\<close>.
\<close>

definition create_chunks_and_embeddings ::
  "('v, 'k, 'r) library \<Rightarrow> ('v, 'k, 'r) chatbot \<Rightarrow> ('v, 'k, 'r) chatbot \<times> bool" where
  "create_chunks_and_embeddings lib self =
     (let self1 = self\<lparr>text_chunks := []\<rparr> in
      if pdf_contents self1 = [] then (self1, False)
      else
        let self2 = self1\<lparr>text_chunks := built_chunks lib self1\<rparr> in
        if text_chunks self2 = [] then (self2, False)
        else
          let chunk_texts = map chunk_text (text_chunks self2) in
          (case encode_batches lib 0 chunk_texts of
             None \<Rightarrow> (self2, False)
           | Some embeddings_list \<Rightarrow>
               if embeddings_list = [] then (self2, False)
               else create_tfidf_index lib (self2\<lparr>chunk_embeddings := Some (concat embeddings_list)\<rparr>)))"

section \<open>The cache\<close>

text \<open>
  A file of the cache directory: missing (\<open>FileNotFoundError\<close>), there but not loadable
  (any other exception), or loaded with its content.
\<close>

datatype 'a artifact = Missing | Unreadable | Content 'a

text \<open>Of the metadata, \<open>load\<close> reads the key \<open>cached_at\<close> only; \<open>None\<close> is a missing key
  or a null.\<close>

record metadata =
  cached_at :: "string option"

text \<open>The five files written under one cache path (lines 161-175).\<close>

record ('v, 'k, 'r) cache_files =
  meta_json :: "metadata artifact"
  chunks_json :: "chunk list artifact"
  embeddings_npy :: "'v list artifact"
  tfidf_vectorizer_pkl :: "'k artifact"
  tfidf_matrix_npy :: "'r list artifact"

definition CACHE_DIR :: string where "CACHE_DIR = ''institutional_cache''"

text \<open>Lines 121-124.\<close>

definition get_cache_path :: "('v, 'k, 'r) library \<Rightarrow> string \<Rightarrow> string" where
  "get_cache_path lib identifier =
     CACHE_DIR @ ''/'' @ ''institutional_'' @ md5_hexdigest lib identifier"

text \<open>\<open>timedelta(days=d)\<close> in microseconds, the resolution of \<open>datetime\<close>.\<close>

definition timedelta_days :: "int \<Rightarrow> int" where
  "timedelta_days d = d * 86400000000"

text \<open>Lines 126-142; \<open>now\<close> is \<open>datetime.now()\<close>.\<close>

definition is_cache_valid ::
  "('v, 'k, 'r) library \<Rightarrow> (string \<Rightarrow> ('v, 'k, 'r) cache_files) \<Rightarrow> int \<Rightarrow> string \<Rightarrow> bool" where
  "is_cache_valid lib storage now cache_path =
     (case meta_json (storage cache_path) of
        Missing \<Rightarrow> False
      | Unreadable \<Rightarrow> False
      | Content metadata \<Rightarrow>
          (case cached_at metadata of
             None \<Rightarrow> False
           | Some cached_at_str \<Rightarrow>
               if cached_at_str = [] then False
               else
                 (case fromisoformat lib cached_at_str of
                    None \<Rightarrow> False
                  | Some cached_date \<Rightarrow> now - cached_date < timedelta_days CACHE_DURATION_DAYS)))"

text \<open>
  Lines 180-204, \<open>load_from_cache\<close>: the new state and the value returned. Only a
  missing TF-IDF file is handled by the inner handler, which rebuilds the index; an
  exception of the rebuild, like any other, reaches line 203.
\<close>

definition load_from_cache ::
  "('v, 'k, 'r) library \<Rightarrow> (string \<Rightarrow> ('v, 'k, 'r) cache_files) \<Rightarrow> int \<Rightarrow> ('v, 'k, 'r) chatbot
     \<Rightarrow> string \<Rightarrow> ('v, 'k, 'r) chatbot \<times> bool" where
  "load_from_cache lib storage now self identifier =
     (let cache_path = get_cache_path lib identifier; files = storage cache_path in
      if \<not> is_cache_valid lib storage now cache_path then (self, False)
      else
        (case chunks_json files of
           Content loaded_chunks \<Rightarrow>
             (let self1 = self\<lparr>text_chunks := loaded_chunks\<rparr> in
              case embeddings_npy files of
                Content loaded_embeddings \<Rightarrow>
                  (let self2 = self1\<lparr>chunk_embeddings := Some loaded_embeddings\<rparr> in
                   case tfidf_vectorizer_pkl files of
                     Content vectorizer \<Rightarrow>
                       (let self3 = self2\<lparr>tfidf_vectorizer := Some vectorizer\<rparr> in
                        case tfidf_matrix_npy files of
                          Content matrix \<Rightarrow> (self3\<lparr>tfidf_matrix := Some matrix\<rparr>, True)
                        | Missing \<Rightarrow> create_tfidf_index lib self3
                        | Unreadable \<Rightarrow> (self3, False))
                   | Missing \<Rightarrow> create_tfidf_index lib self2
                   | Unreadable \<Rightarrow> (self2, False))
              | Missing \<Rightarrow> (self1, False)
              | Unreadable \<Rightarrow> (self1, False))
         | Missing \<Rightarrow> (self, False)
         | Unreadable \<Rightarrow> (self, False)))"

definition readable :: "'a artifact \<Rightarrow> bool" where
  "readable f = (case f of Content x \<Rightarrow> True | Missing \<Rightarrow> False | Unreadable \<Rightarrow> False)"

section \<open>Small corpora and cache directories, for running the model\<close>

definition doc_a :: string where "doc_a = replicate 120 CHR ''a'' @ ''.''"
definition doc_b :: string where "doc_b = replicate 120 CHR ''b'' @ ''.''"
definition doc_c :: string where "doc_c = replicate 120 CHR ''c'' @ ''.''"

text \<open>A fresh instance with three extracted documents, one sentence each.\<close>

definition three_documents :: "(real list, unit, real list) chatbot" where
  "three_documents =
     empty_index\<lparr>pdf_contents := [(''a.pdf'', doc_a), (''b.pdf'', doc_b), (''c.pdf'', doc_c)]\<rparr>"

definition three_doc_chunks :: "chunk list" where
  "three_doc_chunks =
     [\<lparr>chunk_text = doc_a, source = ''a.pdf'', chunk_id = 0\<rparr>,
      \<lparr>chunk_text = doc_b, source = ''b.pdf'', chunk_id = 0\<rparr>,
      \<lparr>chunk_text = doc_c, source = ''c.pdf'', chunk_id = 0\<rparr>]"

definition built_index :: "(real list, unit, real list) chatbot" where
  "built_index =
     \<lparr>pdf_contents = [(''a.pdf'', doc_a), (''b.pdf'', doc_b), (''c.pdf'', doc_c)],
      text_chunks = three_doc_chunks,
      chunk_embeddings = Some [[1, 0], [1, 0], [1, 0]],
      tfidf_vectorizer = Some (), tfidf_matrix = Some [[1], [1], [1]]\<rparr>"

text \<open>Cache directories: nothing written; everything written one second after the epoch
  of the demo clock; the same with the embeddings and the TF-IDF files not written; with
  only the TF-IDF files missing; and two with fewer chunks and no TF-IDF files.\<close>

definition absent_files :: "(real list, unit, real list) cache_files" where
  "absent_files = \<lparr>meta_json = Missing, chunks_json = Missing, embeddings_npy = Missing,
                    tfidf_vectorizer_pkl = Missing, tfidf_matrix_npy = Missing\<rparr>"

definition complete_files :: "(real list, unit, real list) cache_files" where
  "complete_files =
     \<lparr>meta_json = Content \<lparr>cached_at = Some ''1970-01-01T00:00:00''\<rparr>,
      chunks_json = Content three_doc_chunks,
      embeddings_npy = Content [[1, 0], [1, 0], [1, 0]],
      tfidf_vectorizer_pkl = Content (),
      tfidf_matrix_npy = Content [[1], [1], [1]]\<rparr>"

definition partial_files :: "(real list, unit, real list) cache_files" where
  "partial_files = complete_files\<lparr>embeddings_npy := Missing, tfidf_vectorizer_pkl := Missing,
                                   tfidf_matrix_npy := Missing\<rparr>"

definition files_without_keyword_index :: "(real list, unit, real list) cache_files" where
  "files_without_keyword_index =
     complete_files\<lparr>tfidf_vectorizer_pkl := Missing, tfidf_matrix_npy := Missing\<rparr>"

definition two_chunk_files :: "(real list, unit, real list) cache_files" where
  "two_chunk_files =
     \<lparr>meta_json = Content \<lparr>cached_at = Some ''1970-01-01T00:00:00''\<rparr>,
      chunks_json = Content [chunk_of ''Admission rules.'' 0, chunk_of ''Grading policy.'' 1],
      embeddings_npy = Content [[1, 0], [0, 1]],
      tfidf_vectorizer_pkl = Missing,
      tfidf_matrix_npy = Missing\<rparr>"

definition no_chunk_files :: "(real list, unit, real list) cache_files" where
  "no_chunk_files =
     \<lparr>meta_json = Content \<lparr>cached_at = Some ''1970-01-01T00:00:00''\<rparr>,
      chunks_json = Content [],
      embeddings_npy = Content [],
      tfidf_vectorizer_pkl = Missing,
      tfidf_matrix_npy = Missing\<rparr>"

text \<open>A storage that holds the given files under the cache path of the corpus
  \<open>''corpus''\<close> and nothing elsewhere.\<close>

definition storage_of ::
  "(real list, unit, real list) cache_files \<Rightarrow> string \<Rightarrow> (real list, unit, real list) cache_files" where
  "storage_of files path =
     (if path = get_cache_path demo_library ''corpus'' then files else absent_files)"

definition one_second :: int where "one_second = 1000000"

section \<open>Properties of the chunker\<close>

lemma run_snoc: "foldl (cores_step src) p (ss @ [s]) = cores_step src (foldl (cores_step src) p ss) s"
  by simp

lemma fst_run: "fst (foldl (cores_step src) p ss) = foldl (chunk_step src) (fst p) ss"
  by (induction ss arbitrary: p) (simp_all add: cores_step_def)

lemma strip_nonblank: "strip s \<noteq> [] \<Longrightarrow> \<exists>c\<in>set (strip s). \<not> isspace c"
proof -
  assume a: "strip s \<noteq> []"
  let ?xs = "dropWhile isspace (rev (dropWhile isspace s))"
  from a have ne: "?xs \<noteq> []" by (simp add: strip_def)
  then have "\<not> isspace (hd ?xs)" by (rule hd_dropWhile)
  moreover from ne have "hd ?xs \<in> set ?xs" by simp
  ultimately show ?thesis unfolding strip_def by (metis set_rev)
qed

lemma split_acc_nonempty_words: "w \<in> set (split_acc cur s) \<Longrightarrow> w \<noteq> []"
  by (induction s arbitrary: cur) (auto split: if_splits)

lemma split_acc_cur: "cur \<noteq> [] \<Longrightarrow> split_acc cur s \<noteq> []"
  by (induction s arbitrary: cur) auto

lemma split_acc_nonblank: "\<exists>c\<in>set s. \<not> isspace c \<Longrightarrow> split_acc cur s \<noteq> []"
  by (induction s arbitrary: cur) (auto simp: split_acc_cur)

lemma split_ws_nonblank: "\<exists>c\<in>set s. \<not> isspace c \<Longrightarrow> split_ws s \<noteq> []"
  by (simp add: split_ws_def split_acc_nonblank)

lemma set_join_sp: "s \<in> set xs \<Longrightarrow> set s \<subseteq> set (join_sp xs)"
  by (induction xs rule: join_sp.induct) auto

lemma length_join_sp: "xs \<noteq> [] \<Longrightarrow> length (join_sp xs) = sum_list (map length xs) + (length xs - 1)"
  by (induction xs rule: join_sp.induct) auto

lemma join_sp_nonempty: "xs \<noteq> [] \<Longrightarrow> \<forall>w\<in>set xs. w \<noteq> [] \<Longrightarrow> join_sp xs \<noteq> []"
  by (induction xs rule: join_sp.induct) auto

lemma linked_emit:
  assumes "linked chs cs" "cur \<noteq> []" "\<forall>s\<in>set cur. nonblank s"
  shows "linked (emit src chs cur) (cs @ [cur])"
proof -
  from assms(1) have len: "length chs = length cs" by (simp add: linked_def)
  have "chunk_text (emit src chs cur ! i) = add_overlap (take i (emit src chs cur)) (join_sp ((cs @ [cur]) ! i))"
    if "i < length (cs @ [cur])" for i
  proof (cases "i < length cs")
    case True
    with assms(1) len show ?thesis by (simp add: linked_def emit_def nth_append)
  next
    case False
    with that have "i = length cs" by simp
    with len show ?thesis by (simp add: emit_def nth_append)
  qed
  with assms len show ?thesis by (auto simp: linked_def emit_def)
qed

lemma nonblank_strip: "strip raw \<noteq> [] \<Longrightarrow> nonblank (strip raw)"
  by (simp add: nonblank_def strip_nonblank)

lemma set_neg_slice: "set (neg_slice k xs) \<subseteq> set xs"
  by (auto simp: neg_slice_def dest: in_set_dropD)

lemma link_inv_step: "link_inv p \<Longrightarrow> link_inv (cores_step src p raw)"
  using set_neg_slice[of "min 2 (length (current_chunk (fst p)))" "current_chunk (fst p)"]
  by (auto simp: link_inv_def cores_step_def chunk_step_def closes_def Let_def linked_emit nonblank_strip)

lemma link_inv_run: "link_inv p \<Longrightarrow> link_inv (foldl (cores_step src) p ss)"
  by (induction ss arbitrary: p) (simp_all add: link_inv_step)

lemma link_inv_init: "link_inv (chunker_init, [])"
  by (simp add: link_inv_def linked_def chunker_init_def)

lemma linked_final: "linked (smart_chunk_text tok txt src) (smart_chunk_cores tok txt src)"
proof -
  let ?p = "foldl (cores_step src) (chunker_init, []) (split_sentences tok txt)"
  have inv: "link_inv ?p" by (rule link_inv_run[OF link_inv_init])
  have st: "foldl (chunk_step src) chunker_init (split_sentences tok txt) = fst ?p"
    by (simp add: fst_run)
  show ?thesis
    unfolding smart_chunk_text_def smart_chunk_cores_def st chunker_finish_def cores_finish_def
    using inv by (auto simp: link_inv_def intro: linked_emit)
qed

lemma set_add_overlap: "set t \<subseteq> set (add_overlap chs t)"
  by (auto simp: add_overlap_def Let_def)

lemma CHUNK_OVERLAP_pos: "0 < CHUNK_OVERLAP"
  by (simp add: CHUNK_OVERLAP_def)

lemma linked_text_nonblank:
  assumes "linked chs cs" "j < length chs"
  shows "split_ws (chunk_text (chs ! j)) \<noteq> []"
proof -
  from assms have j: "j < length cs" by (simp add: linked_def)
  with assms(1) have core: "cs ! j \<noteq> []" "\<forall>s\<in>set (cs ! j). nonblank s"
    by (auto simp: linked_def)
  then obtain s where s: "s \<in> set (cs ! j)" "nonblank s" by (cases "cs ! j") auto
  then obtain c where c: "c \<in> set s" "\<not> isspace c" by (auto simp: nonblank_def)
  from s(1) c(1) have "c \<in> set (join_sp (cs ! j))" using set_join_sp by blast
  moreover from assms(1) j
  have "chunk_text (chs ! j) = add_overlap (take j chs) (join_sp (cs ! j))" by (simp add: linked_def)
  ultimately have "c \<in> set (chunk_text (chs ! j))" using set_add_overlap by fastforce
  with c(2) show ?thesis by (intro split_ws_nonblank) blast
qed

lemma last_take_nth: "0 < i \<Longrightarrow> i \<le> length xs \<Longrightarrow> last (take i xs) = xs ! (i - 1)"
proof -
  assume a: "0 < i" "i \<le> length xs"
  then have "take i xs \<noteq> []" by auto
  then have "last (take i xs) = take i xs ! (length (take i xs) - 1)" by (rule last_conv_nth)
  with a show ?thesis by (simp add: min_absorb2)
qed

lemma neg_slice_pos: "k \<noteq> 0 \<Longrightarrow> neg_slice k xs = drop (length xs - k) xs"
  by (simp add: neg_slice_def)

lemma split_ws_words_nonempty: "w \<in> set (split_ws s) \<Longrightarrow> w \<noteq> []"
  by (simp add: split_ws_def split_acc_nonempty_words)

lemma unseed_snoc:
  "unseed k (cs @ [c]) = unseed k cs @ drop (if cs = [] then k else min 2 (length (last cs))) c"
  by (induction cs arbitrary: k) auto

lemma seeds_match_snoc:
  "seeds_match (cs @ [c]) \<longleftrightarrow>
     seeds_match cs \<and> (cs = [] \<or> take (min 2 (length (last cs))) c = neg_slice (min 2 (length (last cs))) (last cs))"
  by (induction cs rule: seeds_match.induct) auto

lemma length_neg_slice_min: "xs \<noteq> [] \<Longrightarrow> length (neg_slice (min 2 (length xs)) xs) = min 2 (length xs)"
  by (cases xs) (auto simp: neg_slice_def)

lemma seed_inv_skip:
  "strip raw = [] \<Longrightarrow> cores_step src p raw = p"
  by (simp add: cores_step_def chunk_step_def closes_def)

lemma cores_step_close:
  assumes "closes (fst p) raw"
  shows "cores_step src p raw =
     (\<lparr>chunks = emit src (chunks (fst p)) (current_chunk (fst p)),
       current_chunk = neg_slice (min 2 (length (current_chunk (fst p)))) (current_chunk (fst p)) @ [strip raw],
       current_length = sum_list (map length (neg_slice (min 2 (length (current_chunk (fst p)))) (current_chunk (fst p)) @ [strip raw]))\<rparr>,
      snd p @ [current_chunk (fst p)])"
  using assms CHUNK_OVERLAP_pos by (simp add: cores_step_def chunk_step_def closes_def Let_def)

lemma cores_step_append:
  assumes "strip raw \<noteq> []" "\<not> closes (fst p) raw"
  shows "cores_step src p raw =
     (\<lparr>chunks = chunks (fst p), current_chunk = current_chunk (fst p) @ [strip raw],
       current_length = current_length (fst p) + length (strip raw)\<rparr>, snd p)"
  using assms by (auto simp: cores_step_def chunk_step_def closes_def Let_def)

lemma seed_inv_close:
  assumes "seed_inv p kept" "closes (fst p) raw"
  shows "seed_inv (cores_step src p raw) (kept @ [strip raw])"
proof -
  let ?cur = "current_chunk (fst p)"
  let ?m = "min 2 (length ?cur)"
  from assms(2) have cur: "?cur \<noteq> []" by (simp add: closes_def)
  then have len: "length (neg_slice ?m ?cur) = ?m" by (rule length_neg_slice_min)
  have sub: "set (neg_slice ?m ?cur) \<subseteq> set ?cur" by (rule set_neg_slice)
  from assms(1) have inv: "\<forall>c\<in>set (snd p). c \<noteq> []" "seeds_match (snd p @ [?cur])"
    "unseed 0 (snd p @ [?cur]) = kept" "set (concat (snd p @ [?cur])) = set kept"
    by (simp_all add: seed_inv_def Let_def)
  have a: "seeds_match ((snd p @ [?cur]) @ [neg_slice ?m ?cur @ [strip raw]])"
    using inv(2) len by (subst seeds_match_snoc) simp
  have b: "unseed 0 ((snd p @ [?cur]) @ [neg_slice ?m ?cur @ [strip raw]]) = kept @ [strip raw]"
    using inv(3) len by (subst unseed_snoc) simp
  have c: "set (concat ((snd p @ [?cur]) @ [neg_slice ?m ?cur @ [strip raw]])) = set (kept @ [strip raw])"
    using inv(4) sub by auto
  show ?thesis
    unfolding cores_step_close[OF assms(2)] seed_inv_def Let_def
    using a b c inv(1) cur len by (simp add: seed_count_def)
qed

lemma seed_inv_append:
  assumes "seed_inv p kept" "strip raw \<noteq> []" "\<not> closes (fst p) raw"
  shows "seed_inv (cores_step src p raw) (kept @ [strip raw])"
proof -
  let ?cur = "current_chunk (fst p)"
  from assms(1) have inv: "\<forall>c\<in>set (snd p). c \<noteq> []" "seeds_match (snd p @ [?cur])"
    "unseed 0 (snd p @ [?cur]) = kept" "set (concat (snd p @ [?cur])) = set kept"
    "seed_count (snd p) \<le> length ?cur"
    by (simp_all add: seed_inv_def Let_def)
  have a: "seeds_match (snd p @ [?cur @ [strip raw]])"
    using inv(2,5) by (cases "snd p = []") (auto simp: seeds_match_snoc seed_count_def)
  have b: "unseed 0 (snd p @ [?cur @ [strip raw]]) = kept @ [strip raw]"
    using inv(3,5) by (cases "snd p = []") (auto simp: unseed_snoc seed_count_def)
  have c: "set (concat (snd p @ [?cur @ [strip raw]])) = set (kept @ [strip raw])"
    using inv(4) by auto
  show ?thesis
    unfolding cores_step_append[OF assms(2,3)] seed_inv_def Let_def
    using a b c inv(1,5) by simp
qed

lemma seed_inv_step:
  "seed_inv p kept \<Longrightarrow> seed_inv (cores_step src p raw) (kept @ filter (\<lambda>s. s \<noteq> []) [strip raw])"
  by (cases "strip raw = []"; cases "closes (fst p) raw")
     (simp_all add: seed_inv_skip seed_inv_close seed_inv_append)

lemma seed_inv_run:
  "seed_inv p kept \<Longrightarrow>
   seed_inv (foldl (cores_step src) p ss) (kept @ filter (\<lambda>s. s \<noteq> []) (map strip ss))"
proof (induction ss arbitrary: p kept)
  case Nil
  then show ?case by simp
next
  case (Cons raw ss)
  from Cons.IH[OF seed_inv_step[OF Cons.prems, of src raw]] show ?case
    by (cases "strip raw = []") simp_all
qed

lemma seed_inv_init: "seed_inv (chunker_init, []) []"
  by (simp add: seed_inv_def chunker_init_def seed_count_def)

lemma seed_inv_finish:
  assumes "seed_inv p kept"
  shows "unseed 0 (cores_finish p) = kept \<and> seeds_match (cores_finish p)
         \<and> set (concat (cores_finish p)) = set kept"
proof (cases "current_chunk (fst p) = []")
  case True
  with assms have "snd p = []" by (auto simp: seed_inv_def Let_def)
  with True assms show ?thesis by (simp add: cores_finish_def seed_inv_def Let_def)
next
  case False
  with assms show ?thesis by (simp add: cores_finish_def seed_inv_def Let_def)
qed

lemma length_neg_slice_le: "length (neg_slice (min 2 (length xs)) xs) \<le> 2"
  by (auto simp: neg_slice_def)

lemma size_inv_close:
  assumes "size_inv p" "closes (fst p) raw"
  shows "size_inv (cores_step src p raw)"
proof -
  let ?cur = "current_chunk (fst p)"
  from assms(1) have old: "\<forall>i<length (snd p). sum_list (map length (snd p ! i)) \<le> CHUNK_SIZE
                \<or> length (snd p ! i) \<le> (if i = 0 then 1 else 3)"
     and cur: "sum_list (map length ?cur) \<le> CHUNK_SIZE \<or> length ?cur \<le> (if snd p = [] then 1 else 3)"
    by (simp_all add: size_inv_def Let_def)
  have "sum_list (map length ((snd p @ [?cur]) ! i)) \<le> CHUNK_SIZE
          \<or> length ((snd p @ [?cur]) ! i) \<le> (if i = 0 then 1 else 3)"
    if "i < length (snd p @ [?cur])" for i
  proof (cases "i < length (snd p)")
    case True
    with old show ?thesis by (simp add: nth_append)
  next
    case False
    with that have "i = length (snd p)" by simp
    with cur show ?thesis by (auto simp: nth_append)
  qed
  then show ?thesis
    unfolding cores_step_close[OF assms(2)] size_inv_def Let_def
    using length_neg_slice_le[of ?cur] by simp
qed

lemma size_inv_append:
  assumes "size_inv p" "strip raw \<noteq> []" "\<not> closes (fst p) raw"
  shows "size_inv (cores_step src p raw)"
proof -
  let ?cur = "current_chunk (fst p)"
  from assms(1) have len: "current_length (fst p) = sum_list (map length ?cur)"
    and old: "\<forall>i<length (snd p). sum_list (map length (snd p ! i)) \<le> CHUNK_SIZE
                \<or> length (snd p ! i) \<le> (if i = 0 then 1 else 3)"
    by (simp_all add: size_inv_def Let_def)
  from assms(2,3) len have "?cur = [] \<or> sum_list (map length ?cur) + length (strip raw) \<le> CHUNK_SIZE"
    by (auto simp: closes_def)
  then have "sum_list (map length (?cur @ [strip raw])) \<le> CHUNK_SIZE
               \<or> length (?cur @ [strip raw]) \<le> (if snd p = [] then 1 else 3)"
    by auto
  with len old show ?thesis
    unfolding cores_step_append[OF assms(2,3)] size_inv_def Let_def by simp
qed

lemma size_inv_step: "size_inv p \<Longrightarrow> size_inv (cores_step src p raw)"
  by (cases "strip raw = []"; cases "closes (fst p) raw")
     (simp_all add: seed_inv_skip size_inv_close size_inv_append)

lemma size_inv_run: "size_inv p \<Longrightarrow> size_inv (foldl (cores_step src) p ss)"
  by (induction ss arbitrary: p) (simp_all add: size_inv_step)

lemma size_inv_init: "size_inv (chunker_init, [])"
  by (simp add: size_inv_def chunker_init_def)

lemma size_inv_finish:
  assumes "size_inv p" "i < length (cores_finish p)"
  shows "sum_list (map length (cores_finish p ! i)) \<le> CHUNK_SIZE
           \<or> length (cores_finish p ! i) \<le> (if i = 0 then 1 else 3)"
proof (cases "i < length (snd p)")
  case True
  from assms(1) have "\<forall>i<length (snd p). sum_list (map length (snd p ! i)) \<le> CHUNK_SIZE
                \<or> length (snd p ! i) \<le> (if i = 0 then 1 else 3)"
    by (simp add: size_inv_def Let_def)
  with True have "sum_list (map length (snd p ! i)) \<le> CHUNK_SIZE
                \<or> length (snd p ! i) \<le> (if i = 0 then 1 else 3)" by blast
  moreover from True have "cores_finish p ! i = snd p ! i"
    by (simp add: cores_finish_def nth_append)
  ultimately show ?thesis by simp
next
  case False
  with assms(2) have "i = length (snd p)" "current_chunk (fst p) \<noteq> []"
    by (auto simp: cores_finish_def split: if_splits)
  with assms(1) show ?thesis by (auto simp: size_inv_def Let_def cores_finish_def nth_append)
qed

lemma re_split_go_word:
  "\<forall>c\<in>set w. \<not> isspace c \<Longrightarrow>
   re_split_go sk cur (w @ rest) = re_split_go (sk \<and> w = []) (cur @ w) rest"
  by (induction w arbitrary: sk cur) auto

lemma split_acc_word:
  "\<forall>c\<in>set w. \<not> isspace c \<Longrightarrow> split_acc cur (w @ rest) = split_acc (cur @ w) rest"
  by (induction w arbitrary: cur) auto

lemma split_ws_word: "w \<noteq> [] \<Longrightarrow> \<forall>c\<in>set w. \<not> isspace c \<Longrightarrow> split_ws w = [w]"
  using split_acc_word[of w "[]" "[]"] by (simp add: split_ws_def)

lemma strip_word: "\<forall>c\<in>set w. \<not> isspace c \<Longrightarrow> strip w = w"
proof -
  assume a: "\<forall>c\<in>set w. \<not> isspace c"
  then have "dropWhile isspace w = w" by (cases w) auto
  moreover have "dropWhile isspace xs = xs" if "\<forall>c\<in>set xs. \<not> isspace c" for xs
    using that by (cases xs) auto
  from this[of "rev w"] a have "dropWhile isspace (rev w) = rev w" by simp
  ultimately show ?thesis by (simp add: strip_def)
qed

lemma isspace_space: "isspace CHR '' ''"
  by (simp add: isspace_def)

lemma re_split_two:
  assumes "\<forall>c\<in>set A. \<not> isspace c" "\<forall>c\<in>set B. \<not> isspace c" "A \<noteq> []" "B \<noteq> []"
    "is_terminator (last A)"
  shows "re_split (A @ '' '' @ B) = [A, B]"
proof -
  have "re_split (A @ '' '' @ B) = re_split_go False A (CHR '' '' # B)"
    using re_split_go_word[OF assms(1), of False "[]" "CHR '' '' # B"] by (simp add: re_split_def)
  also have "\<dots> = A # re_split_go True [] (B @ [])"
    using assms(3,5) isspace_space by simp
  also have "re_split_go True [] (B @ []) = [B]"
    using assms(4) by (subst re_split_go_word[OF assms(2)]) simp
  finally show ?thesis .
qed

lemma chunker_two_sentences:
  assumes "\<forall>c\<in>set A. \<not> isspace c" "\<forall>c\<in>set B. \<not> isspace c" "A \<noteq> []" "B \<noteq> []"
    "is_terminator (last A)" "CHUNK_SIZE < length A + length B"
  shows "smart_chunk_cores tokenizer_unavailable (A @ '' '' @ B) src = [[A], [A, B]]"
    and "kept_sentences tokenizer_unavailable (A @ '' '' @ B) = [A, B]"
    and "smart_chunk_text tokenizer_unavailable (A @ '' '' @ B) src =
           [\<lparr>chunk_text = A, source = src, chunk_id = 0\<rparr>,
            \<lparr>chunk_text = A @ '' '' @ A @ '' '' @ B, source = src, chunk_id = 1\<rparr>]"
proof -
  have ss: "split_sentences tokenizer_unavailable (A @ '' '' @ B) = [A, B]"
    using re_split_two[OF assms(1-5)] by (simp add: split_sentences_def tokenizer_unavailable_def)
  have st: "strip A = A" "strip B = B" using assms(1,2) by (simp_all add: strip_word)
  have s1: "chunk_step src chunker_init A = \<lparr>chunks = [], current_chunk = [A], current_length = length A\<rparr>"
    using assms(3) by (simp add: chunk_step_def chunker_init_def st)
  have c1: "\<not> closes chunker_init A" by (simp add: closes_def chunker_init_def)
  have c2: "closes \<lparr>chunks = [], current_chunk = [A], current_length = length A\<rparr> B"
    using assms(4,6) by (simp add: closes_def st)
  have s2: "chunk_step src \<lparr>chunks = [], current_chunk = [A], current_length = length A\<rparr> B =
     \<lparr>chunks = [\<lparr>chunk_text = A, source = src, chunk_id = 0\<rparr>], current_chunk = [A, B],
      current_length = length A + length B\<rparr>"
    using assms(4,6) CHUNK_OVERLAP_pos
    by (simp add: chunk_step_def st emit_def add_overlap_def neg_slice_def)
  show "smart_chunk_cores tokenizer_unavailable (A @ '' '' @ B) src = [[A], [A, B]]"
    unfolding smart_chunk_cores_def ss
    by (simp add: cores_step_def s1 s2 c1 c2 cores_finish_def)
  show "kept_sentences tokenizer_unavailable (A @ '' '' @ B) = [A, B]"
    unfolding kept_sentences_def ss using assms(3,4) by (simp add: st)
  have sw: "split_ws A = [A]" using assms(1,3) by (simp add: split_ws_word)
  show "smart_chunk_text tokenizer_unavailable (A @ '' '' @ B) src =
           [\<lparr>chunk_text = A, source = src, chunk_id = 0\<rparr>,
            \<lparr>chunk_text = A @ '' '' @ A @ '' '' @ B, source = src, chunk_id = 1\<rparr>]"
    unfolding smart_chunk_text_def ss
    by (simp add: s1 s2 chunker_finish_def emit_def add_overlap_def sw
        neg_slice_def CHUNK_OVERLAP_def)
qed

lemma long_ab_facts:
  "\<forall>c\<in>set long_a. \<not> isspace c" "\<forall>c\<in>set long_b. \<not> isspace c" "long_a \<noteq> []" "long_b \<noteq> []"
  "is_terminator (last long_a)" "CHUNK_SIZE < length long_a + length long_b"
  by (auto simp: long_a_def long_b_def isspace_def is_terminator_def CHUNK_SIZE_def)

lemmas two_long = chunker_two_sentences[OF long_ab_facts]

section \<open>Properties of hybrid search\<close>

lemma SEARCH_RESULTS_pos: "SEARCH_RESULTS \<noteq> 0"
  by (simp add: SEARCH_RESULTS_def)

lemma top_indices_eq:
  "top_indices np_argsort cs = rev (drop (length (np_argsort cs) - SEARCH_RESULTS) (np_argsort cs))"
  by (simp add: top_indices_def neg_slice_def SEARCH_RESULTS_pos)

lemma length_top_indices_le: "length (top_indices np_argsort cs) \<le> SEARCH_RESULTS"
  by (simp add: top_indices_eq)

lemma is_argsort_props:
  assumes "is_argsort cs idxs"
  shows "length idxs = length cs" "distinct idxs" "set idxs = {0..<length cs}"
    "sorted (map (\<lambda>i. cs ! i) idxs)"
proof -
  from assms have m: "mset idxs = mset [0..<length cs]" and s: "sorted (map (\<lambda>i. cs ! i) idxs)"
    by (simp_all add: is_argsort_def)
  from m show "length idxs = length cs" by (metis length_upt mset_eq_length minus_nat.diff_0)
  from m show "distinct idxs" by (metis distinct_upt mset_eq_imp_distinct_iff)
  from m show "set idxs = {0..<length cs}" by (metis mset_eq_setD set_upt)
  from s show "sorted (map (\<lambda>i. cs ! i) idxs)" .
qed

lemma top_k_lemma:
  assumes "is_argsort cs (np_argsort cs)"
  shows "length (top_indices np_argsort cs) = min SEARCH_RESULTS (length cs)
       \<and> distinct (top_indices np_argsort cs)
       \<and> set (top_indices np_argsort cs) \<subseteq> {0..<length cs}
       \<and> sorted (rev (map (\<lambda>i. cs ! i) (top_indices np_argsort cs)))
       \<and> (\<forall>j<length cs. j \<notin> set (top_indices np_argsort cs) \<longrightarrow>
             (\<forall>i\<in>set (top_indices np_argsort cs). cs ! j \<le> cs ! i))"
proof -
  let ?idxs = "np_argsort cs"
  let ?d = "length ?idxs - SEARCH_RESULTS"
  note p = is_argsort_props[OF assms]
  have top: "top_indices np_argsort cs = rev (drop ?d ?idxs)" by (rule top_indices_eq)
  have a: "length (top_indices np_argsort cs) = min SEARCH_RESULTS (length cs)"
    unfolding top using p(1) by simp
  have b: "distinct (top_indices np_argsort cs)"
    unfolding top using p(2) by simp
  have c: "set (top_indices np_argsort cs) \<subseteq> {0..<length cs}"
    unfolding top using p(3) set_drop_subset[of ?d ?idxs] by simp
  have "sorted (map (\<lambda>i. cs ! i) (drop ?d ?idxs))"
    using p(4) by (simp add: sorted_wrt_drop flip: drop_map)
  then have d: "sorted (rev (map (\<lambda>i. cs ! i) (top_indices np_argsort cs)))"
    unfolding top by (simp add: rev_map)
  have split: "map (\<lambda>i. cs ! i) (take ?d ?idxs) @ map (\<lambda>i. cs ! i) (drop ?d ?idxs) = map (\<lambda>i. cs ! i) ?idxs"
    by (simp flip: map_append)
  have e: "cs ! j \<le> cs ! i"
    if "j < length cs" "j \<notin> set (top_indices np_argsort cs)" "i \<in> set (top_indices np_argsort cs)" for i j
  proof -
    from that(1) p(3) have "j \<in> set (take ?d ?idxs @ drop ?d ?idxs)" by simp
    then have "j \<in> set (take ?d ?idxs) \<or> j \<in> set (drop ?d ?idxs)"
      unfolding set_append by blast
    with that(2) have j: "j \<in> set (take ?d ?idxs)" unfolding top by auto
    from that(3) have i: "i \<in> set (drop ?d ?idxs)" unfolding top by simp
    from p(4) have "sorted (map (\<lambda>i. cs ! i) (take ?d ?idxs) @ map (\<lambda>i. cs ! i) (drop ?d ?idxs))"
      unfolding split .
    with i j show ?thesis by (auto simp: sorted_append)
  qed
  from a b c d e show ?thesis by blast
qed

lemma stable_argsort_ok: "is_argsort cs (stable_argsort cs)"
proof -
  let ?ps = "zip cs [0..<length cs]"
  have "mset (map snd (sort_key fst ?ps)) = mset (map snd ?ps)"
    by (metis mset_map mset_sort)
  then have m: "mset (stable_argsort cs) = mset [0..<length cs]"
    by (simp add: stable_argsort_def)
  have "\<forall>p\<in>set (sort_key fst ?ps). cs ! snd p = fst p"
    by (auto simp: set_zip)
  then have "map (\<lambda>i. cs ! i) (map snd (sort_key fst ?ps)) = map fst (sort_key fst ?ps)"
    by simp
  then have "sorted (map (\<lambda>i. cs ! i) (stable_argsort cs))"
    by (simp add: stable_argsort_def del: map_map)
  with m show ?thesis by (simp add: is_argsort_def)
qed

lemma those_map_Some:
  "those (map f xs) = Some ys \<Longrightarrow> length ys = length xs \<and> (\<forall>i<length xs. f (xs ! i) = Some (ys ! i))"
proof (induction xs arbitrary: ys)
  case Nil
  then show ?case by simp
next
  case (Cons x xs)
  from Cons.prems obtain y ys' where y: "f x = Some y" "those (map f xs) = Some ys'" "ys = y # ys'"
    by (auto split: option.splits)
  from Cons.IH[OF y(2)] y(1,3) show ?case by (auto simp: nth_Cons split: nat.splits)
qed

lemma those_map_None: "x \<in> set xs \<Longrightarrow> f x = None \<Longrightarrow> those (map f xs) = None"
  by (induction xs) (auto split: option.splits)

lemma np_add_nth:
  assumes "np_add xs ys = Some zs" "i < length xs" "i < length ys"
  shows "zs ! i = xs ! i + ys ! i"
proof -
  consider (eq) "length xs = length ys" | (l) "length xs \<noteq> length ys" "length xs = 1"
    | (r) "length xs \<noteq> length ys" "length xs \<noteq> 1" "length ys = 1"
    using assms(1) by (auto simp: np_add_def split: if_splits)
  then show ?thesis
  proof cases
    case eq
    with assms show ?thesis by (auto simp: np_add_def)
  next
    case l
    with assms(2) have "i = 0" by simp
    with l assms show ?thesis by (cases xs) (auto simp: np_add_def)
  next
    case r
    with assms(3) have "i = 0" by simp
    with r assms show ?thesis by (cases ys) (auto simp: np_add_def)
  qed
qed

lemma all_scores_SomeD:
  assumes "all_scores lib self E qe question = Some (sem, kw, comb)"
  shows "cos_sim lib qe E = Some sem" "keyword_search lib self question = Some kw"
    "combine sem kw = Some comb"
  using assms by (auto simp: all_scores_def split: option.splits)

lemma hybrid_search_disj:
  "hybrid_search lib self q = []
   \<or> (\<exists>E qe sel. chunk_embeddings self = Some E \<and> text_chunks self \<noteq> []
        \<and> encode_question lib q = Some qe
        \<and> selected_chunks lib self E qe q = Some sel
        \<and> hybrid_search lib self q = filter (\<lambda>c. combined_score c > relevance_floor) sel)"
  by (auto simp: hybrid_search_def split: option.splits)

lemma hybrid_search_cases:
  obtains (empty) "hybrid_search lib self q = []"
  | (found) E qe sel where "chunk_embeddings self = Some E" "text_chunks self \<noteq> []"
      "encode_question lib q = Some qe"
      "selected_chunks lib self E qe q = Some sel"
      "hybrid_search lib self q = filter (\<lambda>c. combined_score c > relevance_floor) sel"
  using hybrid_search_disj[of lib self q] by blast

lemma selected_chunks_SomeD:
  assumes "selected_chunks lib self E qe q = Some sel"
  obtains sem kw comb where "all_scores lib self E qe q = Some (sem, kw, comb)"
    "those (map (score_chunk (text_chunks self) sem kw comb) (top_indices (argsort lib) comb)) = Some sel"
  using assms by (auto simp: selected_chunks_def split: option.splits)

lemma length_selected:
  assumes "selected_chunks lib self E qe q = Some sel"
  shows "length sel \<le> SEARCH_RESULTS"
proof -
  from assms obtain sem kw comb where
    "those (map (score_chunk (text_chunks self) sem kw comb) (top_indices (argsort lib) comb)) = Some sel"
    by (rule selected_chunks_SomeD)
  from those_map_Some[OF this] have "length sel = length (top_indices (argsort lib) comb)" by simp
  then show ?thesis by (simp add: length_top_indices_le)
qed

lemma retry_from_None: "(\<forall>k<n. call (a + k) = None) \<Longrightarrow> retry_from call a n = None"
proof (induction n arbitrary: a)
  case 0
  then show ?case by simp
next
  case (Suc n)
  from Suc.prems have "call a = None" by (metis add.right_neutral zero_less_Suc)
  moreover have "\<forall>k<n. call (Suc a + k) = None"
    using Suc.prems by (metis Suc_less_eq add_Suc_shift)
  ultimately show ?case using Suc.IH by simp
qed

lemma with_retries_None: "(\<forall>a<MAX_RETRIES. call a = None) \<Longrightarrow> with_retries call = None"
  unfolding with_retries_def by (rule retry_from_None) simp

lemma score_chunk_combined:
  "score_chunk chs sem kw comb idx = Some c \<Longrightarrow> combined_score c = comb ! idx"
  by (auto simp: score_chunk_def nth_opt_def split: option.splits if_splits)

lemma selected_combined:
  assumes "those (map (score_chunk chs sem kw comb) tops) = Some sel"
  shows "map combined_score sel = map (\<lambda>i. comb ! i) tops"
proof (rule nth_equalityI)
  from those_map_Some[OF assms] have len: "length sel = length tops"
    and each: "\<forall>n<length tops. score_chunk chs sem kw comb (tops ! n) = Some (sel ! n)" by simp_all
  from len show "length (map combined_score sel) = length (map (\<lambda>i. comb ! i) tops)" by simp
  fix n assume "n < length (map combined_score sel)"
  with len have n: "n < length tops" by simp
  with each have "score_chunk chs sem kw comb (tops ! n) = Some (sel ! n)" by blast
  then have "combined_score (sel ! n) = comb ! (tops ! n)" by (rule score_chunk_combined)
  with n len show "map combined_score sel ! n = map (\<lambda>i. comb ! i) tops ! n" by simp
qed

lemma those_map_pointwise:
  "\<forall>x\<in>set xs. f x = Some (g x) \<Longrightarrow> those (map f xs) = Some (map g xs)"
  by (induction xs) simp_all

lemma np_add_same_length:
  "length xs = length ys \<Longrightarrow> np_add xs ys = Some zs \<Longrightarrow> length zs = length ys"
  by (auto simp: np_add_def)

lemma keyword_search_length:
  assumes "keyword_search lib self q = Some kw"
    and "\<forall>M. tfidf_matrix self = Some M \<longrightarrow> length M = length (text_chunks self)"
  shows "length kw = length (text_chunks self)"
proof (cases "tfidf_vectorizer self")
  case None
  with assms(1) show ?thesis by (auto simp: keyword_search_def)
next
  case (Some v)
  show ?thesis
  proof (cases "tfidf_matrix self")
    case None
    with Some assms(1) show ?thesis by (auto simp: keyword_search_def)
  next
    case (Some M)
    with \<open>tfidf_vectorizer self = Some v\<close> assms(1) obtain qt where
      "those (map (row_cosine lib qt) M) = Some kw"
      by (auto simp: keyword_search_def split: option.splits)
    from those_map_Some[OF this] have "length kw = length M" by simp
    with assms(2) Some show ?thesis by simp
  qed
qed

lemma score_chunk_in_range:
  assumes "idx < length chs" "idx < length sem" "idx < length kw" "idx < length comb"
  shows "score_chunk chs sem kw comb idx = Some (scored (chs ! idx) (sem ! idx) (kw ! idx) (comb ! idx))"
  using assms by (simp add: score_chunk_def nth_opt_def scored_def)

lemma selected_chunks_consistent:
  assumes sc: "all_scores lib self E qe q = Some (sem, kw, comb)"
    and ar: "is_argsort comb (argsort lib comb)"
    and le: "length E = length (text_chunks self)"
    and lm: "\<forall>M. tfidf_matrix self = Some M \<longrightarrow> length M = length (text_chunks self)"
  shows "length comb = length (text_chunks self)"
    and "selected_chunks lib self E qe q =
      Some (map (\<lambda>idx. scored (text_chunks self ! idx) (sem ! idx) (kw ! idx) (comb ! idx))
               (top_indices (argsort lib) comb))"
proof -
  note s = all_scores_SomeD[OF sc]
  from s(1) have lsem: "length sem = length (text_chunks self)"
    using those_map_Some[of "cosine lib qe" E sem] le by (simp add: cos_sim_def)
  from keyword_search_length[OF s(2) lm] have lkw: "length kw = length (text_chunks self)" .
  from s(3) have "np_add (map (\<lambda>s. semantic_weight * s) (map (\<lambda>s. (s + 1) / 2) sem))
                         (map (\<lambda>k. keyword_weight * k) kw) = Some comb"
    by (simp add: combine_def)
  from np_add_same_length[OF _ this] lsem lkw
  show lcomb: "length comb = length (text_chunks self)" by simp
  from top_k_lemma[where np_argsort="argsort lib" and cs=comb, OF ar]
  have "set (top_indices (argsort lib) comb) \<subseteq> {0..<length comb}" by blast
  with lcomb have rng: "\<forall>idx\<in>set (top_indices (argsort lib) comb). idx < length (text_chunks self)"
    by auto
  have "\<forall>idx\<in>set (top_indices (argsort lib) comb).
          score_chunk (text_chunks self) sem kw comb idx
          = Some (scored (text_chunks self ! idx) (sem ! idx) (kw ! idx) (comb ! idx))"
    using rng lsem lkw lcomb by (auto intro: score_chunk_in_range)
  from those_map_pointwise[OF this] sc
  show "selected_chunks lib self E qe q =
      Some (map (\<lambda>idx. scored (text_chunks self ! idx) (sem ! idx) (kw ! idx) (comb ! idx))
               (top_indices (argsort lib) comb))"
    by (simp add: selected_chunks_def)
qed

lemma hybrid_search_consistent:
  assumes "chunk_embeddings self = Some E"
    and "encode_question lib q = Some qe"
    and sc: "all_scores lib self E qe q = Some (sem, kw, comb)"
    and ar: "is_argsort comb (argsort lib comb)"
    and le: "length E = length (text_chunks self)"
    and lm: "\<forall>M. tfidf_matrix self = Some M \<longrightarrow> length M = length (text_chunks self)"
  shows "hybrid_search lib self q =
      filter (\<lambda>c. combined_score c > 0.15)
        (map (\<lambda>idx. scored (text_chunks self ! idx) (sem ! idx) (kw ! idx) (comb ! idx))
             (top_indices (argsort lib) comb))"
proof (cases "text_chunks self = []")
  case True
  with selected_chunks_consistent(1)[OF sc ar le lm] have "length comb = 0" by simp
  with top_k_lemma[where np_argsort="argsort lib" and cs=comb, OF ar]
  have "top_indices (argsort lib) comb = []" by simp
  with True assms(1) show ?thesis by (simp add: hybrid_search_def)
next
  case False
  with assms(1,2) selected_chunks_consistent(2)[OF sc ar le lm] show ?thesis
    by (simp add: hybrid_search_def relevance_floor_def)
qed

lemma retry_from_NoneD: "retry_from call a n = None \<Longrightarrow> \<forall>k<n. call (a + k) = None"
proof (induction n arbitrary: a)
  case 0
  then show ?case by simp
next
  case (Suc n)
  from Suc.prems have c: "call a = None" and r: "retry_from call (Suc a) n = None"
    by (auto split: option.splits)
  show ?case
  proof (intro allI impI)
    fix k assume k: "k < Suc n"
    show "call (a + k) = None"
    proof (cases k)
      case 0
      with c show ?thesis by simp
    next
      case (Suc j)
      with k have "j < n" by simp
      with Suc.IH[OF r] have "call (Suc a + j) = None" by blast
      with Suc show ?thesis by simp
    qed
  qed
qed

lemma encode_question_None_iff:
  "encode_question lib q = None \<longleftrightarrow> (\<forall>attempt<MAX_RETRIES. encode_query lib attempt q = None)"
proof
  assume "encode_question lib q = None"
  then have "retry_from (\<lambda>attempt. encode_query lib attempt q) 0 MAX_RETRIES = None"
    by (simp add: encode_question_def with_retries_def)
  from retry_from_NoneD[OF this] show "\<forall>attempt<MAX_RETRIES. encode_query lib attempt q = None"
    by simp
next
  assume "\<forall>attempt<MAX_RETRIES. encode_query lib attempt q = None"
  then show "encode_question lib q = None"
    unfolding encode_question_def by (rule with_retries_None)
qed

lemma hybrid_search_found:
  assumes "chunk_embeddings self = Some E" "text_chunks self \<noteq> []"
    "encode_question lib q = Some qe" "selected_chunks lib self E qe q = Some sel"
  shows "hybrid_search lib self q = filter (\<lambda>c. combined_score c > 0.15) sel"
  using assms by (simp add: hybrid_search_def relevance_floor_def)

lemma hybrid_search_empty_iff:
  "hybrid_search lib self q = [] \<longleftrightarrow>
     chunk_embeddings self = None \<or> text_chunks self = [] \<or> encode_question lib q = None
     \<or> (\<exists>E qe. chunk_embeddings self = Some E \<and> encode_question lib q = Some qe
           \<and> (selected_chunks lib self E qe q = None
                \<or> (\<exists>sel. selected_chunks lib self E qe q = Some sel
                      \<and> (\<forall>c\<in>set sel. combined_score c \<le> 0.15))))"
  by (auto simp: hybrid_search_def relevance_floor_def filter_empty_conv not_less
      split: option.splits)

lemma hybrid_search_question_via_library:
  assumes "\<forall>attempt. encode_query lib attempt q' = encode_query lib attempt q"
    and "\<forall>v. transform lib v q' = transform lib v q"
  shows "hybrid_search lib self q' = hybrid_search lib self q"
proof -
  from assms(1) have e: "encode_question lib q' = encode_question lib q"
    by (simp add: encode_question_def)
  from assms(2) have k: "keyword_search lib self q' = keyword_search lib self q"
    by (simp add: keyword_search_def split: option.splits)
  have a: "all_scores lib self E qe q' = all_scores lib self E qe q" for E qe
    unfolding all_scores_def k by (rule refl)
  have s: "selected_chunks lib self E qe q' = selected_chunks lib self E qe q" for E qe
    unfolding selected_chunks_def a by (rule refl)
  show ?thesis unfolding hybrid_search_def e s by (rule refl)
qed

section \<open>Properties of the index build\<close>

lemma retry_from_Some: "retry_from call a n = Some v \<Longrightarrow> \<exists>k<n. call (a + k) = Some v"
proof (induction n arbitrary: a)
  case 0
  then show ?case by simp
next
  case (Suc n)
  show ?case
  proof (cases "call a")
    case None
    with Suc.prems have "retry_from call (Suc a) n = Some v" by simp
    from Suc.IH[OF this] obtain k where "k < n" "call (Suc a + k) = Some v" by blast
    then have "Suc k < Suc n" "call (a + Suc k) = Some v" by simp_all
    then show ?thesis by blast
  next
    case (Some w)
    with Suc.prems have "call (a + 0) = Some v" by simp
    then show ?thesis by blast
  qed
qed

lemma with_retries_Some: "with_retries call = Some v \<Longrightarrow> \<exists>a<MAX_RETRIES. call a = Some v"
  unfolding with_retries_def using retry_from_Some[of call 0 MAX_RETRIES v] by simp

lemma BATCH_SIZE_pos: "0 < BATCH_SIZE"
  by (simp add: BATCH_SIZE_def)

lemma encode_batches_rows:
  "\<forall>i a b vs. encode_batch lib i a b = Some vs \<longrightarrow> length vs = length b
   \<Longrightarrow> encode_batches lib i texts = Some ebs \<Longrightarrow> length (concat ebs) = length texts - i"
proof (induction lib i texts arbitrary: ebs rule: encode_batches.induct)
  case (1 lib i texts)
  show ?case
  proof (cases "length texts \<le> i")
    case True
    with "1.prems"(2) show ?thesis by (simp add: encode_batches.simps[of lib i texts])
  next
    case False
    with "1.prems"(2) obtain b rest where
      b: "with_retries (\<lambda>attempt. encode_batch lib i attempt (take BATCH_SIZE (drop i texts))) = Some b"
      and rest: "encode_batches lib (i + BATCH_SIZE) texts = Some rest" and ebs: "ebs = b # rest"
      by (auto simp: encode_batches.simps[of lib i texts] split: option.splits)
    from with_retries_Some[OF b] "1.prems"(1) have "length b = length (take BATCH_SIZE (drop i texts))"
      by blast
    moreover from "1.IH"[OF False b "1.prems"(1) rest] have "length (concat rest) = length texts - (i + BATCH_SIZE)" .
    ultimately show ?thesis using ebs False by simp
  qed
qed

lemma encode_batches_in_order:
  "\<forall>i a b vs. encode_batch lib i a b = Some vs \<longrightarrow> vs = map enc b
   \<Longrightarrow> encode_batches lib i texts = Some ebs \<Longrightarrow> concat ebs = map enc (drop i texts)"
proof (induction lib i texts arbitrary: ebs rule: encode_batches.induct)
  case (1 lib i texts)
  show ?case
  proof (cases "length texts \<le> i")
    case True
    with "1.prems"(2) show ?thesis by (simp add: encode_batches.simps[of lib i texts])
  next
    case False
    with "1.prems"(2) obtain b rest where
      b: "with_retries (\<lambda>attempt. encode_batch lib i attempt (take BATCH_SIZE (drop i texts))) = Some b"
      and rest: "encode_batches lib (i + BATCH_SIZE) texts = Some rest" and ebs: "ebs = b # rest"
      by (auto simp: encode_batches.simps[of lib i texts] split: option.splits)
    from with_retries_Some[OF b] "1.prems"(1) have "b = map enc (take BATCH_SIZE (drop i texts))"
      by blast
    moreover from "1.IH"[OF False b "1.prems"(1) rest] have "concat rest = map enc (drop (i + BATCH_SIZE) texts)" .
    moreover have "take BATCH_SIZE (drop i texts) @ drop (i + BATCH_SIZE) texts = drop i texts"
      by (metis add.commute append_take_drop_id drop_drop)
    ultimately show ?thesis using ebs by (simp flip: map_append)
  qed
qed

lemma encode_batches_nonempty:
  "i < length texts \<Longrightarrow> encode_batches lib i texts = Some ebs \<Longrightarrow> ebs \<noteq> []"
  by (auto simp: encode_batches.simps[of lib i texts] split: option.splits)

lemma encode_batches_failure:
  shows "i \<le> j \<Longrightarrow> BATCH_SIZE dvd (j - i)
    \<Longrightarrow> with_retries (\<lambda>attempt. encode_batch lib j attempt (take BATCH_SIZE (drop j texts))) = None
    \<Longrightarrow> j < length texts \<Longrightarrow> encode_batches lib i texts = None"
proof (induction lib i texts rule: encode_batches.induct)
  case (1 lib i texts)
  from "1.prems"(1) "1.prems"(4) have nle: "\<not> length texts \<le> i" by simp
  show ?case
  proof (cases "with_retries (\<lambda>attempt. encode_batch lib i attempt (take BATCH_SIZE (drop i texts)))")
    case None
    with nle show ?thesis by (simp add: encode_batches.simps[of lib i texts])
  next
    case (Some b)
    with "1.prems"(3) have "i \<noteq> j" by auto
    with "1.prems"(1) have lt: "0 < j - i" by simp
    with "1.prems"(2) have "BATCH_SIZE \<le> j - i" by (rule dvd_imp_le)
    with lt have le: "i + BATCH_SIZE \<le> j" by linarith
    from "1.prems"(2) have "BATCH_SIZE dvd (j - (i + BATCH_SIZE))"
      by (metis diff_diff_left dvd_diff_nat dvd_refl)
    from "1.IH"[OF nle Some le this "1.prems"(3,4)]
    have "encode_batches lib (i + BATCH_SIZE) texts = None" .
    with nle Some show ?thesis by (simp add: encode_batches.simps[of lib i texts])
  qed
qed


lemma built_chunks_cong [simp]: "built_chunks lib (self\<lparr>text_chunks := cs\<rparr>) = built_chunks lib self"
  by (simp add: built_chunks_def)

lemma built_chunks_empty: "pdf_contents self = [] \<Longrightarrow> built_chunks lib self = []"
  by (simp add: built_chunks_def)

lemma create_cases:
  assumes "create_chunks_and_embeddings lib self = (self', ok)"
  shows "text_chunks self' = built_chunks lib self
       \<and> ((\<not> ok \<and> chunk_embeddings self' = chunk_embeddings self
            \<and> (built_chunks lib self = []
                \<or> encode_batches lib 0 (map chunk_text (built_chunks lib self)) = None))
          \<or> (\<exists>ebs. encode_batches lib 0 (map chunk_text (built_chunks lib self)) = Some ebs
                \<and> built_chunks lib self \<noteq> []
                \<and> chunk_embeddings self' = Some (concat ebs)
                \<and> (if ok then (\<exists>k M. fit_transform lib (map chunk_text (built_chunks lib self)) = Some (k, M)
                                \<and> tfidf_vectorizer self' = Some k \<and> tfidf_matrix self' = Some M)
                    else fit_transform lib (map chunk_text (built_chunks lib self)) = None)))"
proof (cases "pdf_contents self = []")
  case True
  with assms show ?thesis
    by (auto simp: create_chunks_and_embeddings_def built_chunks_empty)
next
  case nonempty: False
  show ?thesis
  proof (cases "built_chunks lib self = []")
    case True
    with assms nonempty show ?thesis
      by (auto simp: create_chunks_and_embeddings_def Let_def)
  next
    case chunks: False
    show ?thesis
    proof (cases "encode_batches lib 0 (map chunk_text (built_chunks lib self))")
      case None
      with assms nonempty chunks show ?thesis
        by (auto simp: create_chunks_and_embeddings_def Let_def)
    next
      case (Some ebs)
      from chunks have "0 < length (map chunk_text (built_chunks lib self))" by simp
      from encode_batches_nonempty[OF this Some] have ne: "ebs \<noteq> []" .
      from assms nonempty chunks Some ne
      have "create_tfidf_index lib
              (self\<lparr>text_chunks := built_chunks lib self, chunk_embeddings := Some (concat ebs)\<rparr>)
            = (self', ok)"
        by (simp add: create_chunks_and_embeddings_def Let_def)
      with chunks Some show ?thesis
        by (cases ok) (auto simp: create_tfidf_index_def Let_def split: option.splits)
    qed
  qed
qed

section \<open>Claims about the chunker\<close>

text \<open>
  C1, as the code has it. The text of every chunk is its core, the sentences joined by
  spaces, behind the overlap prefix. No sentence is dropped: the cores of the chunks hold
  exactly the kept sentences of the input. A sentence may be in two cores: every core
  after the first starts with the last two sentences (the last one, when there is only
  one) of the core before it, the continuation seeding of lines 286-289. With these seeded
  sentences taken off as well, the cores put end to end are the kept sentences, each once
  and in order.
\<close>

theorem cores_cover_sentences:
  "linked (smart_chunk_text tok txt src) (smart_chunk_cores tok txt src)
   \<and> unseed 0 (smart_chunk_cores tok txt src) = kept_sentences tok txt
   \<and> seeds_match (smart_chunk_cores tok txt src)
   \<and> set (concat (smart_chunk_cores tok txt src)) = set (kept_sentences tok txt)"
  using seed_inv_finish[OF seed_inv_run[OF seed_inv_init, of src "split_sentences tok txt"]]
    linked_final[of tok "txt" src]
  by (simp add: smart_chunk_cores_def kept_sentences_def)

theorem cores_cover_sentences_witness:
  "length (smart_chunk_text tokenizer_unavailable (long_a @ '' '' @ long_b) ''doc.pdf'') = 2
   \<and> chunk_text (smart_chunk_text tokenizer_unavailable (long_a @ '' '' @ long_b) ''doc.pdf'' ! 0)
       = long_a
   \<and> smart_chunk_cores tokenizer_unavailable (long_a @ '' '' @ long_b) ''doc.pdf''
       = [[long_a], [long_a, long_b]]
   \<and> unseed 0 (smart_chunk_cores tokenizer_unavailable (long_a @ '' '' @ long_b) ''doc.pdf'')
       = [long_a, long_b]
   \<and> kept_sentences tokenizer_unavailable (long_a @ '' '' @ long_b) = [long_a, long_b]"
proof -
  from cores_cover_sentences[of tokenizer_unavailable "long_a @ '' '' @ long_b" "''doc.pdf''"]
  have "unseed 0 (smart_chunk_cores tokenizer_unavailable (long_a @ '' '' @ long_b) ''doc.pdf'')
          = kept_sentences tokenizer_unavailable (long_a @ '' '' @ long_b)"
    by blast
  then show ?thesis
    unfolding two_long(1) two_long(2) two_long(3) by simp
qed

text \<open>
  C1 as stated fails: for a document of two sentences of 501 characters each, the first
  sentence is in the core of the first chunk and again in the core of the second, so the
  cores put end to end are not the sentence sequence.
\<close>

theorem sentence_in_two_cores_counterexample:
  "long_a \<in> set (smart_chunk_cores tokenizer_unavailable (long_a @ '' '' @ long_b) ''doc.pdf'' ! 0)
   \<and> long_a \<in> set (smart_chunk_cores tokenizer_unavailable (long_a @ '' '' @ long_b) ''doc.pdf'' ! 1)
   \<and> concat (smart_chunk_cores tokenizer_unavailable (long_a @ '' '' @ long_b) ''doc.pdf'')
       \<noteq> kept_sentences tokenizer_unavailable (long_a @ '' '' @ long_b)"
  unfolding two_long(1) two_long(2)
  by simp

text \<open>
  C8. Every chunk after the first, the last one included, starts with the overlap prefix:
  the last \<open>k\<close> words of the text of the chunk emitted just before it, joined by spaces
  and followed by one space, where \<open>k\<close> is the smaller of \<open>CHUNK_OVERLAP // 5\<close> and the
  number of words of that text. The prefix holds at least one word, and the chunk's core
  follows it.
\<close>

theorem overlap_prefix_of_later_chunks:
  assumes "0 < i" and "i < length (smart_chunk_text tok txt src)"
  shows "let chs = smart_chunk_text tok txt src;
             prev_chunk_words = split_ws (chunk_text (chs ! (i - 1)));
             k = min (CHUNK_OVERLAP div 5) (length prev_chunk_words);
             overlap_words = drop (length prev_chunk_words - k) prev_chunk_words
         in 0 < k \<and> length overlap_words = k \<and> join_sp overlap_words \<noteq> [] \<and>
            length (smart_chunk_cores tok txt src) = length chs \<and>
            chunk_text (chs ! i) =
              join_sp overlap_words @ '' '' @ join_sp (smart_chunk_cores tok txt src ! i)"
proof -
  let ?chs = "smart_chunk_text tok txt src"
  let ?cs = "smart_chunk_cores tok txt src"
  let ?ws = "split_ws (chunk_text (?chs ! (i - 1)))"
  let ?k = "min (CHUNK_OVERLAP div 5) (length ?ws)"
  let ?ow = "drop (length ?ws - ?k) ?ws"
  have lk: "linked ?chs ?cs" by (rule linked_final)
  then have len: "length ?cs = length ?chs" by (simp add: linked_def)
  from assms have ws: "?ws \<noteq> []" by (intro linked_text_nonblank[OF lk]) simp
  then have k: "0 < ?k" by (simp add: CHUNK_OVERLAP_def)
  have lk_ow: "length ?ow = ?k" by simp
  with k have "?ow \<noteq> []" by (metis length_0_conv less_numeral_extra(3))
  moreover have "\<forall>w\<in>set ?ow. w \<noteq> []"
    using split_ws_words_nonempty by (blast dest: in_set_dropD)
  ultimately have ne: "join_sp ?ow \<noteq> []" by (rule join_sp_nonempty)
  from assms have tk: "take i ?chs \<noteq> []" "last (take i ?chs) = ?chs ! (i - 1)"
    by (auto simp: last_take_nth)
  from lk assms len have "chunk_text (?chs ! i) = add_overlap (take i ?chs) (join_sp (?cs ! i))"
    by (simp add: linked_def)
  also have "\<dots> = join_sp (neg_slice ?k ?ws) @ '' '' @ join_sp (?cs ! i)"
    using tk CHUNK_OVERLAP_pos by (simp add: add_overlap_def Let_def)
  also have "neg_slice ?k ?ws = ?ow" using k by (intro neg_slice_pos) simp
  finally show ?thesis using k lk_ow ne len by (simp add: Let_def)
qed

theorem overlap_prefix_witness:
  "(0::nat) < 1
   \<and> 1 < length (smart_chunk_text tokenizer_unavailable (long_a @ '' '' @ long_b) ''doc.pdf'')
   \<and> chunk_text (smart_chunk_text tokenizer_unavailable (long_a @ '' '' @ long_b) ''doc.pdf'' ! 1)
       = long_a @ '' '' @ join_sp (smart_chunk_cores tokenizer_unavailable (long_a @ '' '' @ long_b) ''doc.pdf'' ! 1)"
proof -
  have h: "1 < length (smart_chunk_text tokenizer_unavailable (long_a @ '' '' @ long_b) ''doc.pdf'')"
    unfolding two_long(3) by simp
  have w: "split_ws long_a = [long_a]"
    using long_ab_facts(1,3) by (simp add: split_ws_word)
  from overlap_prefix_of_later_chunks[OF _ h] h show ?thesis
    unfolding two_long(1) two_long(3) by (simp add: w CHUNK_OVERLAP_def)
qed

text \<open>
  C9, as the code has it. The lengths of the sentences of a chunk's core add up to at most
  \<open>CHUNK_SIZE\<close>, unless the core is a single sentence or, for a chunk after the first, has
  at most three sentences: the one or two sentences seeded from the chunk before and the
  sentence that closed that chunk.
\<close>

theorem core_size_bound:
  assumes "i < length (smart_chunk_cores tok txt src)"
  shows "sum_list (map length (smart_chunk_cores tok txt src ! i)) \<le> CHUNK_SIZE
         \<or> length (smart_chunk_cores tok txt src ! i) \<le> (if i = 0 then 1 else 3)"
proof -
  let ?p = "foldl (cores_step src) (chunker_init, []) (split_sentences tok txt)"
  have "size_inv ?p" by (rule size_inv_run[OF size_inv_init])
  from size_inv_finish[OF this, of i] assms show ?thesis
    by (simp add: smart_chunk_cores_def)
qed

theorem core_size_bound_witness:
  "1 < length (smart_chunk_cores tokenizer_unavailable (long_a @ '' '' @ long_b) ''doc.pdf'')
   \<and> length (smart_chunk_cores tokenizer_unavailable (long_a @ '' '' @ long_b) ''doc.pdf'' ! 1) \<le> 3"
proof -
  have h: "1 < length (smart_chunk_cores tokenizer_unavailable (long_a @ '' '' @ long_b) ''doc.pdf'')"
    unfolding two_long(1) by simp
  from core_size_bound[OF h] h show ?thesis
    unfolding two_long(1) by simp
qed

text \<open>
  C9 as stated fails: the second chunk of the two-sentence document has a core of two
  sentences, 1003 characters long once joined, above the target of 800.
\<close>

theorem seeded_core_exceeds_counterexample:
  "length (smart_chunk_cores tokenizer_unavailable (long_a @ '' '' @ long_b) ''doc.pdf'' ! 1) = 2
   \<and> CHUNK_SIZE
       < length (join_sp (smart_chunk_cores tokenizer_unavailable (long_a @ '' '' @ long_b) ''doc.pdf'' ! 1))"
  unfolding two_long(1)
  by (simp add: long_a_def long_b_def CHUNK_SIZE_def)

section \<open>Claims about hybrid search\<close>

text \<open>
  Scores are Python and numpy floats in the source; the model computes with real numbers,
  so the theorems are about the formulas, not about rounding.
\<close>

lemma demo_encodes: "encode_question demo_library q = Some [1, 0]"
  by (simp add: encode_question_def with_retries_def MAX_RETRIES_def numeral_2_eq_2 demo_library_def)

lemma all_scores_three:
  "all_scores demo_library three_chunk_index [[1, 0], [0, 1], [-1, 0]] [1, 0] q
     = Some ([1, 0, -1], [0, 0, 0], [7/10, 7/20, 0])"
  by code_simp

lemma all_scores_keyword:
  "all_scores demo_library keyword_index [[1, 0], [0, 1], [-1, 0]] [1, 0] q
     = Some ([1, 0, -1], [1, 0, 1/2], [1, 7/20, 3/20])"
  by code_simp

lemma all_scores_large:
  "all_scores demo_library large_index large_embeddings [1, 0] q
     = Some (large_semantic, replicate 15 0, large_combined)"
  by code_simp

lemma hs_three:
  "hybrid_search demo_library three_chunk_index q =
     [scored (chunk_of ''Admission rules.'' 0) 1 0 (7/10),
      scored (chunk_of ''Grading policy.'' 1) 0 0 (7/20)]"
  by code_simp

lemma hs_tied:
  "hybrid_search demo_library tied_index q =
     [scored (chunk_of ''Admission rules.'' 1) 1 0 (7/10),
      scored (chunk_of ''Admission rules.'' 0) 1 0 (7/10)]"
  by code_simp

lemma hs_keyword:
  "hybrid_search demo_library keyword_index q =
     [scored (chunk_of ''Admission rules.'' 0) 1 1 1,
      scored (chunk_of ''Grading policy.'' 1) 0 0 (7/20)]"
  by code_simp

lemma selected_far:
  "selected_chunks demo_library far_index [[-1, 0]] [1, 0] q
     = Some [scored (chunk_of ''Campus map.'' 0) (-1) 0 0]"
  by code_simp

lemma selected_misshapen: "selected_chunks demo_library misshapen_index [[1, 0, 0]] [1, 0] q = None"
  by code_simp

text \<open>
  C2, as the code has it. When \<open>np.argsort\<close> returns the indices of the combined scores in
  ascending order of score, line 424 selects \<open>min K n\<close> distinct chunks (\<open>K\<close> is
  \<open>SEARCH_RESULTS\<close>, \<open>n\<close> the number of scores), no chunk left out scores more than a
  selected one, and the selected chunks are in descending order of combined score. On an
  index with one embedding row and one TF-IDF row per chunk, \<open>hybrid_search\<close> returns
  exactly these selected chunks, each with its scores, in that order, less the ones at or
  below the relevance floor. Nothing is said on the order of equal scores: it is the
  reverse of the order argsort gives them.
\<close>

theorem top_k_in_descending_order:
  assumes "chunk_embeddings self = Some E"
    and "encode_question lib q = Some qe"
    and "all_scores lib self E qe q = Some (sem, kw, comb)"
    and "is_argsort comb (argsort lib comb)"
  shows "length (top_indices (argsort lib) comb) = min SEARCH_RESULTS (length comb)
       \<and> distinct (top_indices (argsort lib) comb)
       \<and> set (top_indices (argsort lib) comb) \<subseteq> {0..<length comb}
       \<and> sorted (rev (map (\<lambda>i. comb ! i) (top_indices (argsort lib) comb)))
       \<and> (\<forall>j<length comb. j \<notin> set (top_indices (argsort lib) comb) \<longrightarrow>
             (\<forall>i\<in>set (top_indices (argsort lib) comb). comb ! j \<le> comb ! i))
       \<and> sorted (rev (map combined_score (hybrid_search lib self q)))
       \<and> (length E = length (text_chunks self)
            \<and> (\<forall>M. tfidf_matrix self = Some M \<longrightarrow> length M = length (text_chunks self))
          \<longrightarrow> length comb = length (text_chunks self)
              \<and> hybrid_search lib self q =
                  filter (\<lambda>c. combined_score c > 0.15)
                    (map (\<lambda>idx. scored (text_chunks self ! idx) (sem ! idx) (kw ! idx) (comb ! idx))
                         (top_indices (argsort lib) comb)))"
proof -
  note tk = top_k_lemma[where np_argsort="argsort lib" and cs=comb, OF assms(4)]
  have "sorted (rev (map combined_score (hybrid_search lib self q)))"
  proof (cases rule: hybrid_search_cases[of lib self q])
    case empty
    then show ?thesis by simp
  next
    case (found E' qe' sel)
    with assms(1,2) have sel: "selected_chunks lib self E qe q = Some sel" by simp
    with assms(3) have "those (map (score_chunk (text_chunks self) sem kw comb)
                           (top_indices (argsort lib) comb)) = Some sel"
      by (simp add: selected_chunks_def)
    from selected_combined[OF this] tk
    have "sorted (rev (map combined_score sel))" by simp
    then have "sorted (map combined_score (rev sel))" by (simp add: rev_map)
    then have "sorted (map combined_score (filter (\<lambda>c. combined_score c > relevance_floor) (rev sel)))"
      by (rule sorted_filter)
    then show ?thesis unfolding found(5) by (simp add: rev_map rev_filter)
  qed
  moreover have "length comb = length (text_chunks self)
      \<and> hybrid_search lib self q =
          filter (\<lambda>c. combined_score c > 0.15)
            (map (\<lambda>idx. scored (text_chunks self ! idx) (sem ! idx) (kw ! idx) (comb ! idx))
                 (top_indices (argsort lib) comb))"
    if "length E = length (text_chunks self)"
      "\<forall>M. tfidf_matrix self = Some M \<longrightarrow> length M = length (text_chunks self)"
    using selected_chunks_consistent(1)[OF assms(3,4) that]
      hybrid_search_consistent[OF assms that] by blast
  ultimately show ?thesis using tk by blast
qed

theorem top_k_witness:
  "chunk_embeddings large_index = Some large_embeddings
   \<and> encode_question demo_library ''graduation requirements'' = Some [1, 0]
   \<and> all_scores demo_library large_index large_embeddings [1, 0] ''graduation requirements''
       = Some (large_semantic, replicate 15 0, large_combined)
   \<and> is_argsort large_combined (argsort demo_library large_combined)
   \<and> length large_embeddings = length (text_chunks large_index)
   \<and> tfidf_matrix large_index = None
   \<and> length (top_indices (argsort demo_library) large_combined) = 13
   \<and> sorted (rev (map combined_score (hybrid_search demo_library large_index ''graduation requirements'')))
   \<and> map chunk_id (hybrid_search demo_library large_index ''graduation requirements'')
       = [8, 7, 3, 5, 1, 14, 13, 0, 4, 2, 6, 9]"
proof -
  have e: "chunk_embeddings large_index = Some large_embeddings"
    by (simp add: large_index_def)
  have s: "is_argsort large_combined (argsort demo_library large_combined)"
    using stable_argsort_ok[of large_combined] by (simp add: demo_library_def)
  have n: "length large_combined = 15" by (simp add: large_combined_def)
  have l: "length large_embeddings = length (text_chunks large_index)"
    by (simp add: large_embeddings_def large_index_def)
  have m: "tfidf_matrix large_index = None" by (simp add: large_index_def)
  have d: "encode_question demo_library ''graduation requirements'' = Some [1, 0]"
    by (rule demo_encodes)
  have a: "all_scores demo_library large_index large_embeddings [1, 0] ''graduation requirements''
       = Some (large_semantic, replicate 15 0, large_combined)"
    by (rule all_scores_large)
  note t = top_k_in_descending_order[OF e d a s]
  note t1 = t[THEN conjunct1]
  note t6 = t[THEN conjunct2, THEN conjunct2, THEN conjunct2, THEN conjunct2, THEN conjunct2,
      THEN conjunct1]
  note t7 = t[THEN conjunct2, THEN conjunct2, THEN conjunct2, THEN conjunct2, THEN conjunct2,
      THEN conjunct2]
  from t1 n have k: "length (top_indices (argsort demo_library) large_combined) = 13"
    by (simp add: SEARCH_RESULTS_def)
  from l m have "length large_embeddings = length (text_chunks large_index)
      \<and> (\<forall>M. tfidf_matrix large_index = Some M \<longrightarrow> length M = length (text_chunks large_index))"
    by simp
  with t7 have "hybrid_search demo_library large_index ''graduation requirements'' =
          filter (\<lambda>c. combined_score c > 0.15)
            (map (\<lambda>idx. scored (text_chunks large_index ! idx) (large_semantic ! idx)
                          (replicate 15 0 ! idx) (large_combined ! idx))
                 (top_indices (argsort demo_library) large_combined))"
    by blast
  moreover have "map chunk_id (filter (\<lambda>c. combined_score c > 0.15)
            (map (\<lambda>idx. scored (text_chunks large_index ! idx) (large_semantic ! idx)
                          (replicate 15 0 ! idx) (large_combined ! idx))
                 (top_indices (argsort demo_library) large_combined)))
        = [8, 7, 3, 5, 1, 14, 13, 0, 4, 2, 6, 9]"
    by code_simp
  ultimately have r: "map chunk_id (hybrid_search demo_library large_index ''graduation requirements'')
       = [8, 7, 3, 5, 1, 14, 13, 0, 4, 2, 6, 9]" by (rule ssubst)
  show ?thesis by (intro conjI e d a s l m k t6 r)
qed

text \<open>
  C2 as stated fails on ties: two chunks with the same combined score come back with the
  later chunk first, under an argsort that keeps equal scores in index order.
\<close>

theorem later_chunk_first_on_tie_counterexample:
  "map chunk_id (hybrid_search demo_library tied_index ''graduation requirements'') = [1, 0]
   \<and> map combined_score (hybrid_search demo_library tied_index ''graduation requirements'')
       = [7/10, 7/10]"
  unfolding hs_tied
  by (simp add: scored_def chunk_of_def)

text \<open>
  C3. When the scoring of a question succeeds, chunk \<open>i\<close> has the semantic score
  \<open>cosine q e\<^sub>i\<close>, the keyword score \<open>0\<close> when the vectorizer or the matrix is missing and
  the cosine of the TF-IDF rows otherwise, and the combined score
  \<open>0.7 * ((semantic + 1) / 2) + 0.3 * keyword\<close>.
\<close>

theorem combined_score_formula:
  assumes "all_scores lib self E qe question = Some (sem, kw, comb)"
    and "i < length E" and "i < length kw"
  shows "cosine lib qe (E ! i) = Some (sem ! i)
       \<and> comb ! i = 0.7 * ((sem ! i + 1) / 2) + 0.3 * kw ! i
       \<and> (tfidf_vectorizer self = None \<or> tfidf_matrix self = None \<longrightarrow> kw ! i = 0)
       \<and> (\<forall>vectorizer matrix. tfidf_vectorizer self = Some vectorizer \<and> tfidf_matrix self = Some matrix
             \<longrightarrow> (\<exists>question_tfidf. transform lib vectorizer question = Some question_tfidf
                    \<and> row_cosine lib question_tfidf (matrix ! i) = Some (kw ! i)))"
proof -
  note s = all_scores_SomeD[OF assms(1)]
  from s(1) have sem: "length sem = length E" "\<forall>i<length E. cosine lib qe (E ! i) = Some (sem ! i)"
    using those_map_Some[of "cosine lib qe" E sem] by (simp_all add: cos_sim_def)
  with assms(2) have a: "cosine lib qe (E ! i) = Some (sem ! i)" by simp
  from s(3) have "np_add (map (\<lambda>s. semantic_weight * s) (map (\<lambda>s. (s + 1) / 2) sem))
                         (map (\<lambda>k. keyword_weight * k) kw) = Some comb"
    by (simp add: combine_def)
  from np_add_nth[OF this, of i] assms(2,3) sem(1)
  have b: "comb ! i = 0.7 * ((sem ! i + 1) / 2) + 0.3 * kw ! i"
    by (simp add: semantic_weight_def keyword_weight_def)
  have c: "kw ! i = 0" if "tfidf_vectorizer self = None \<or> tfidf_matrix self = None"
  proof -
    from that s(2) have "kw = replicate (length (text_chunks self)) 0"
      by (auto simp: keyword_search_def split: option.splits)
    with assms(3) show ?thesis by simp
  qed
  have d: "\<exists>question_tfidf. transform lib vectorizer question = Some question_tfidf
                    \<and> row_cosine lib question_tfidf (matrix ! i) = Some (kw ! i)"
    if "tfidf_vectorizer self = Some vectorizer" "tfidf_matrix self = Some matrix" for vectorizer matrix
  proof -
    from that s(2) obtain qt where qt: "transform lib vectorizer question = Some qt"
      "those (map (row_cosine lib qt) matrix) = Some kw"
      by (auto simp: keyword_search_def split: option.splits)
    from those_map_Some[OF qt(2)] assms(3) have "row_cosine lib qt (matrix ! i) = Some (kw ! i)"
      by simp
    with qt(1) show ?thesis by blast
  qed
  from a b c d show ?thesis by blast
qed

theorem combined_score_formula_witness:
  "all_scores demo_library keyword_index [[1, 0], [0, 1], [-1, 0]] [1, 0] ''grading''
     = Some ([1, 0, -1], [1, 0, 1/2], [1, 7/20, 3/20])
   \<and> (2::nat) < length [[1, 0], [0, 1], [-1, 0::real]] \<and> (2::nat) < length [1, 0, 1/2::real]
   \<and> cosine demo_library [1, 0] ([[1, 0], [0, 1], [-1, 0]] ! 2) = Some (-1)
   \<and> [1, 7/20, 3/20::real] ! 2 = 0.7 * ((-1 + 1) / 2) + 0.3 * (1/2)
   \<and> all_scores demo_library three_chunk_index [[1, 0], [0, 1], [-1, 0]] [1, 0] ''grading''
     = Some ([1, 0, -1], [0, 0, 0], [7/10, 7/20, 0])
   \<and> [7/10, 7/20, 0::real] ! 1 = 0.7 * ((0 + 1) / 2) + 0.3 * 0"
proof -
  have h: "(2::nat) < length [[1, 0], [0, 1], [-1, 0::real]]" "(2::nat) < length [1, 0, 1/2::real]"
    by simp_all
  have g: "(1::nat) < length [[1, 0], [0, 1], [-1, 0::real]]" "(1::nat) < length [0, 0, 0::real]"
    by simp_all
  from combined_score_formula[OF all_scores_keyword h, of "''grading''"]
    combined_score_formula[OF all_scores_three g, of "''grading''"]
    all_scores_keyword all_scores_three h
  show ?thesis by simp
qed

text \<open>
  C4. Every chunk that \<open>hybrid_search\<close> returns has a combined score above 0.15, at most
  \<open>SEARCH_RESULTS\<close> chunks are returned, and the result is empty when none of the selected
  chunks is above the floor.
\<close>

theorem results_clear_relevance_floor:
  "(\<forall>c\<in>set (hybrid_search lib self q). combined_score c > 0.15)
   \<and> length (hybrid_search lib self q) \<le> SEARCH_RESULTS
   \<and> (\<forall>E qe sel. chunk_embeddings self = Some E
          \<and> encode_question lib q = Some qe
          \<and> selected_chunks lib self E qe q = Some sel
          \<and> (\<forall>c\<in>set sel. combined_score c \<le> 0.15)
        \<longrightarrow> hybrid_search lib self q = [])"
proof (cases rule: hybrid_search_cases[of lib self q])
  case empty
  then show ?thesis by simp
next
  case (found E qe sel)
  have "length (hybrid_search lib self q) \<le> SEARCH_RESULTS"
    unfolding found(5) by (rule le_trans[OF length_filter_le length_selected[OF found(4)]])
  moreover have "\<forall>c\<in>set (hybrid_search lib self q). combined_score c > 0.15"
    unfolding found(5) by (simp add: relevance_floor_def)
  moreover have "hybrid_search lib self q = []"
    if "chunk_embeddings self = Some E'" "encode_question lib q = Some qe'"
      "selected_chunks lib self E' qe' q = Some sel'" "\<forall>c\<in>set sel'. combined_score c \<le> 0.15"
    for E' qe' sel'
  proof -
    from that(1,2,3) found(1,3,4) have "sel' = sel" by simp
    with that(4) show ?thesis unfolding found(5) by (auto simp: relevance_floor_def filter_empty_conv)
  qed
  ultimately show ?thesis by blast
qed

theorem results_clear_relevance_floor_witness:
  "hybrid_search demo_library keyword_index ''graduation requirements'' \<noteq> []
   \<and> 0.15 < combined_score (hd (hybrid_search demo_library keyword_index ''graduation requirements''))
   \<and> length (hybrid_search demo_library keyword_index ''graduation requirements'') \<le> SEARCH_RESULTS
   \<and> chunk_embeddings far_index = Some [[-1, 0]]
   \<and> encode_question demo_library ''graduation requirements'' = Some [1, 0]
   \<and> selected_chunks demo_library far_index [[-1, 0]] [1, 0] ''graduation requirements''
       = Some [scored (chunk_of ''Campus map.'' 0) (-1) 0 0]
   \<and> hybrid_search demo_library far_index ''graduation requirements'' = []"
proof -
  have e: "chunk_embeddings far_index = Some [[-1, 0]]" by (simp add: far_index_def)
  have low: "\<forall>c\<in>set [scored (chunk_of ''Campus map.'' 0) (-1) 0 0]. combined_score c \<le> 0.15"
    by (simp add: scored_def)
  from results_clear_relevance_floor[of demo_library far_index "''graduation requirements''"]
    e demo_encodes selected_far low
  have far: "hybrid_search demo_library far_index ''graduation requirements'' = []" by blast
  have ne: "hybrid_search demo_library keyword_index ''graduation requirements'' \<noteq> []"
    unfolding hs_keyword by simp
  then have "hd (hybrid_search demo_library keyword_index ''graduation requirements'')
               \<in> set (hybrid_search demo_library keyword_index ''graduation requirements'')"
    by (rule hd_in_set)
  with results_clear_relevance_floor[of demo_library keyword_index "''graduation requirements''"]
  have "0.15 < combined_score (hd (hybrid_search demo_library keyword_index ''graduation requirements''))"
    and "length (hybrid_search demo_library keyword_index ''graduation requirements'') \<le> SEARCH_RESULTS"
    by blast+
  with far ne e demo_encodes selected_far show ?thesis by blast
qed

text \<open>
  C7, as the code has it. \<open>hybrid_search\<close> returns the empty list when the index is absent
  or empty, when every encoding attempt raises, and when a scoring step raises (a cosine
  that raises is one such step); every chunk it returns carries scores computed from the
  index. In every other case it returns the selected chunks that are above the relevance
  floor, so the result is empty exactly when the index is absent or empty, the encoding
  or the scoring fails, or no selected chunk is above the floor. The empty question is
  not a special case: the result depends on the question only through what the encoder
  and the vectorizer return for it, so a question they treat like the empty one gets the
  same result.
\<close>

theorem search_failures_return_empty:
  "(chunk_embeddings self = None \<or> text_chunks self = [] \<longrightarrow> hybrid_search lib self q = [])
   \<and> ((\<forall>attempt<MAX_RETRIES. encode_query lib attempt q = None) \<longrightarrow> hybrid_search lib self q = [])
   \<and> (\<forall>E qe. chunk_embeddings self = Some E
          \<and> encode_question lib q = Some qe
          \<and> selected_chunks lib self E qe q = None
        \<longrightarrow> hybrid_search lib self q = [])
   \<and> (\<forall>E qe e. chunk_embeddings self = Some E
          \<and> encode_question lib q = Some qe
          \<and> e \<in> set E \<and> cosine lib qe e = None
        \<longrightarrow> hybrid_search lib self q = [])
   \<and> (\<forall>c\<in>set (hybrid_search lib self q).
         \<exists>E qe sem kw comb idx. chunk_embeddings self = Some E
           \<and> encode_question lib q = Some qe
           \<and> all_scores lib self E qe q = Some (sem, kw, comb)
           \<and> score_chunk (text_chunks self) sem kw comb idx = Some c)
   \<and> (encode_question lib q = None
        \<longleftrightarrow> (\<forall>attempt<MAX_RETRIES. encode_query lib attempt q = None))
   \<and> (\<forall>E qe sel. chunk_embeddings self = Some E \<and> text_chunks self \<noteq> []
          \<and> encode_question lib q = Some qe
          \<and> selected_chunks lib self E qe q = Some sel
        \<longrightarrow> hybrid_search lib self q = filter (\<lambda>c. combined_score c > 0.15) sel)
   \<and> (\<forall>E qe sem kw comb. chunk_embeddings self = Some E
          \<and> encode_question lib q = Some qe
          \<and> all_scores lib self E qe q = Some (sem, kw, comb)
          \<and> is_argsort comb (argsort lib comb)
          \<and> length E = length (text_chunks self)
          \<and> (\<forall>M. tfidf_matrix self = Some M \<longrightarrow> length M = length (text_chunks self))
        \<longrightarrow> hybrid_search lib self q =
              filter (\<lambda>c. combined_score c > 0.15)
                (map (\<lambda>idx. scored (text_chunks self ! idx) (sem ! idx) (kw ! idx) (comb ! idx))
                     (top_indices (argsort lib) comb)))
   \<and> (hybrid_search lib self q = [] \<longleftrightarrow>
         chunk_embeddings self = None \<or> text_chunks self = [] \<or> encode_question lib q = None
         \<or> (\<exists>E qe. chunk_embeddings self = Some E \<and> encode_question lib q = Some qe
               \<and> (selected_chunks lib self E qe q = None
                    \<or> (\<exists>sel. selected_chunks lib self E qe q = Some sel
                          \<and> (\<forall>c\<in>set sel. combined_score c \<le> 0.15)))))
   \<and> (\<forall>q'. (\<forall>attempt. encode_query lib attempt q' = encode_query lib attempt q)
          \<and> (\<forall>v. transform lib v q' = transform lib v q)
        \<longrightarrow> hybrid_search lib self q' = hybrid_search lib self q)"
proof -
  have a: "hybrid_search lib self q = []" if "chunk_embeddings self = None \<or> text_chunks self = []"
    using that by (auto simp: hybrid_search_def split: option.splits)
  have b: "hybrid_search lib self q = []" if "\<forall>attempt<MAX_RETRIES. encode_query lib attempt q = None"
    using with_retries_None[of "\<lambda>attempt. encode_query lib attempt q", OF that]
    by (simp add: hybrid_search_def encode_question_def split: option.splits)
  have c: "hybrid_search lib self q = []"
    if "chunk_embeddings self = Some E" "encode_question lib q = Some qe"
      "selected_chunks lib self E qe q = None" for E qe
    using that by (simp add: hybrid_search_def)
  have d: "hybrid_search lib self q = []"
    if "chunk_embeddings self = Some E" "encode_question lib q = Some qe"
      "e \<in> set E" "cosine lib qe e = None" for E qe e
  proof -
    from that(3,4) have "cos_sim lib qe E = None" unfolding cos_sim_def by (rule those_map_None)
    then have "selected_chunks lib self E qe q = None"
      by (simp add: selected_chunks_def all_scores_def)
    with that(1,2) show ?thesis by (rule c)
  qed
  have e: "\<exists>E qe sem kw comb idx. chunk_embeddings self = Some E
           \<and> encode_question lib q = Some qe
           \<and> all_scores lib self E qe q = Some (sem, kw, comb)
           \<and> score_chunk (text_chunks self) sem kw comb idx = Some c"
    if cin: "c \<in> set (hybrid_search lib self q)" for c
  proof (cases rule: hybrid_search_cases[of lib self q])
    case empty
    with cin show ?thesis by simp
  next
    case (found E qe sel)
    from found(4) obtain sem kw comb where sc: "all_scores lib self E qe q = Some (sem, kw, comb)"
      "those (map (score_chunk (text_chunks self) sem kw comb) (top_indices (argsort lib) comb)) = Some sel"
      by (rule selected_chunks_SomeD)
    from cin found(5) have "c \<in> set sel" by simp
    then obtain n where n: "n < length sel" "sel ! n = c" by (auto simp: in_set_conv_nth)
    with those_map_Some[OF sc(2)]
    have "score_chunk (text_chunks self) sem kw comb (top_indices (argsort lib) comb ! n) = Some c"
      by simp
    with found(1,3) sc(1) show ?thesis by blast
  qed
  note f = encode_question_None_iff[of lib q]
  have g: "hybrid_search lib self q = filter (\<lambda>c. combined_score c > 0.15) sel"
    if "chunk_embeddings self = Some E" "text_chunks self \<noteq> []"
      "encode_question lib q = Some qe" "selected_chunks lib self E qe q = Some sel" for E qe sel
    using that by (rule hybrid_search_found)
  have h: "hybrid_search lib self q =
              filter (\<lambda>c. combined_score c > 0.15)
                (map (\<lambda>idx. scored (text_chunks self ! idx) (sem ! idx) (kw ! idx) (comb ! idx))
                     (top_indices (argsort lib) comb))"
    if "chunk_embeddings self = Some E" "encode_question lib q = Some qe"
      "all_scores lib self E qe q = Some (sem, kw, comb)" "is_argsort comb (argsort lib comb)"
      "length E = length (text_chunks self)"
      "\<forall>M. tfidf_matrix self = Some M \<longrightarrow> length M = length (text_chunks self)"
    for E qe sem kw comb
    using that by (rule hybrid_search_consistent)
  note i = hybrid_search_empty_iff[of lib self q]
  have j: "hybrid_search lib self q' = hybrid_search lib self q"
    if "\<forall>attempt. encode_query lib attempt q' = encode_query lib attempt q"
      "\<forall>v. transform lib v q' = transform lib v q" for q'
    using that by (rule hybrid_search_question_via_library)
  show ?thesis
    apply (intro conjI)
    subgoal using a by blast
    subgoal using b by blast
    subgoal using c by blast
    subgoal using d by blast
    subgoal using e by blast
    subgoal using f by blast
    subgoal using g by blast
    subgoal using h by blast
    subgoal using i by blast
    subgoal using j by blast
    done
qed

theorem search_failures_witness:
  "chunk_embeddings empty_index = None
   \<and> hybrid_search demo_library empty_index ''grading'' = []
   \<and> encode_query offline_library 0 ''grading'' = None
   \<and> encode_query offline_library 1 ''grading'' = None
   \<and> encode_question offline_library ''grading'' = None
   \<and> hybrid_search offline_library three_chunk_index ''grading'' = []
   \<and> chunk_embeddings misshapen_index = Some [[1, 0, 0]]
   \<and> encode_question demo_library ''grading'' = Some [1, 0]
   \<and> cosine demo_library [1, 0] [1, 0, 0] = None
   \<and> selected_chunks demo_library misshapen_index [[1, 0, 0]] [1, 0] ''grading'' = None
   \<and> hybrid_search demo_library misshapen_index ''grading'' = []
   \<and> hybrid_search demo_library three_chunk_index ''grading'' \<noteq> []
   \<and> all_scores demo_library three_chunk_index [[1, 0], [0, 1], [-1, 0]] [1, 0] ''''
       = Some ([1, 0, -1], [0, 0, 0], [7/10, 7/20, 0])
   \<and> hybrid_search demo_library three_chunk_index ''''
       = [scored (chunk_of ''Admission rules.'' 0) 1 0 (7/10),
          scored (chunk_of ''Grading policy.'' 1) 0 0 (7/20)]
   \<and> hybrid_search demo_library three_chunk_index ''''
       = hybrid_search demo_library three_chunk_index ''grading''"
proof -
  have a: "chunk_embeddings empty_index = None" by (simp add: empty_index_def)
  have b: "\<forall>attempt<MAX_RETRIES. encode_query offline_library attempt ''grading'' = None"
    by (simp add: offline_library_def)
  have b0: "encode_query offline_library 0 ''grading'' = None"
    and b1: "encode_query offline_library 1 ''grading'' = None"
    by (simp_all add: offline_library_def)
  have c: "chunk_embeddings misshapen_index = Some [[1, 0, 0]]" by (simp add: misshapen_index_def)
  have d: "cosine demo_library [1, 0] [1, 0, 0] = None" by (simp add: demo_library_def)
  have enc: "encode_question demo_library ''grading'' = Some [1, 0]" by (rule demo_encodes)
  have enc0: "encode_question demo_library [] = Some [1, 0]" by (rule demo_encodes)
  have mis: "selected_chunks demo_library misshapen_index [[1, 0, 0]] [1, 0] ''grading'' = None"
    by (rule selected_misshapen)
  have sc0: "all_scores demo_library three_chunk_index [[1, 0], [0, 1], [-1, 0]] [1, 0] []
       = Some ([1, 0, -1], [0, 0, 0], [7/10, 7/20, 0])"
    by (rule all_scores_three)
  note t_empty = search_failures_return_empty[of empty_index demo_library "''grading''"]
  from t_empty[THEN conjunct1] a
  have r1: "hybrid_search demo_library empty_index ''grading'' = []" by simp
  note t_off = search_failures_return_empty[of three_chunk_index offline_library "''grading''"]
  from t_off[THEN conjunct2, THEN conjunct1] b
  have r2: "hybrid_search offline_library three_chunk_index ''grading'' = []" by (rule mp)
  from t_off[THEN conjunct2, THEN conjunct2, THEN conjunct2, THEN conjunct2, THEN conjunct2,
      THEN conjunct1] b
  have r2': "encode_question offline_library ''grading'' = None" by (rule iffD2)
  note t_mis = search_failures_return_empty[of misshapen_index demo_library "''grading''"]
  from t_mis[THEN conjunct2, THEN conjunct2, THEN conjunct1] c enc mis
  have r3: "hybrid_search demo_library misshapen_index ''grading'' = []" by blast
  have r4: "hybrid_search demo_library three_chunk_index ''grading'' \<noteq> []"
    unfolding hs_three by simp
  have e3: "chunk_embeddings three_chunk_index = Some [[1, 0], [0, 1], [-1, 0]]"
    "length [[1, 0], [0, 1], [-1, 0::real]] = length (text_chunks three_chunk_index)"
    "\<forall>M. tfidf_matrix three_chunk_index = Some M \<longrightarrow> length M = length (text_chunks three_chunk_index)"
    by (simp_all add: three_chunk_index_def)
  have s3: "is_argsort [7/10, 7/20, 0] (argsort demo_library [7/10, 7/20, 0])"
    using stable_argsort_ok[of "[7/10, 7/20, 0]"] by (simp add: demo_library_def)
  note t_emp = search_failures_return_empty[of three_chunk_index demo_library "[]"]
  from t_emp[THEN conjunct2, THEN conjunct2, THEN conjunct2, THEN conjunct2, THEN conjunct2,
      THEN conjunct2, THEN conjunct2, THEN conjunct1] e3 s3 enc0 sc0
  have "hybrid_search demo_library three_chunk_index [] =
          filter (\<lambda>c. combined_score c > 0.15)
            (map (\<lambda>idx. scored (text_chunks three_chunk_index ! idx) ([1, 0, -1] ! idx)
                          ([0, 0, 0] ! idx) ([7/10, 7/20, 0] ! idx))
                 (top_indices (argsort demo_library) [7/10, 7/20, 0]))"
    by blast
  moreover have "filter (\<lambda>c. combined_score c > 0.15)
            (map (\<lambda>idx. scored (text_chunks three_chunk_index ! idx) ([1, 0, -1] ! idx)
                          ([0, 0, 0] ! idx) ([7/10, 7/20, 0] ! idx))
                 (top_indices (argsort demo_library) [7/10, 7/20, 0]))
        = [scored (chunk_of ''Admission rules.'' 0) 1 0 (7/10),
           scored (chunk_of ''Grading policy.'' 1) 0 0 (7/20)]"
    by code_simp
  ultimately have r5: "hybrid_search demo_library three_chunk_index []
       = [scored (chunk_of ''Admission rules.'' 0) 1 0 (7/10),
          scored (chunk_of ''Grading policy.'' 1) 0 0 (7/20)]" by (rule trans)
  have same: "(\<forall>attempt. encode_query demo_library attempt [] = encode_query demo_library attempt ''grading'')
      \<and> (\<forall>v. transform demo_library v [] = transform demo_library v ''grading'')"
    by (simp add: demo_library_def)
  note t_gr = search_failures_return_empty[of three_chunk_index demo_library "''grading''"]
  from t_gr[THEN conjunct2, THEN conjunct2, THEN conjunct2, THEN conjunct2, THEN conjunct2,
      THEN conjunct2, THEN conjunct2, THEN conjunct2, THEN conjunct2, THEN spec, of "[]"] same
  have r6: "hybrid_search demo_library three_chunk_index []
       = hybrid_search demo_library three_chunk_index ''grading''" by (rule mp)
  show ?thesis by (intro conjI a r1 b0 b1 r2' r2 c enc d mis r3 r4 sc0 r5 r6)
qed

text \<open>
  C7 as stated fails for the empty question: it is encoded like any other, and the chunks
  above the floor are returned.
\<close>

theorem empty_question_returns_chunks_counterexample:
  "map chunk_id (hybrid_search demo_library three_chunk_index '''') = [0, 1]
   \<and> hybrid_search demo_library three_chunk_index '''' \<noteq> []"
  unfolding hs_three
  by (simp add: scored_def chunk_of_def)

section \<open>Claims about the index build and the cache\<close>

lemma demo_library_rows:
  "\<forall>i a b vs. encode_batch demo_library i a b = Some vs \<longrightarrow> length vs = length b"
  "\<forall>ts k m. fit_transform demo_library ts = Some (k, m) \<longrightarrow> length m = length ts"
  "\<forall>i a b vs. encode_batch offline_library i a b = Some vs \<longrightarrow> length vs = length b"
  "\<forall>ts k m. fit_transform offline_library ts = Some (k, m) \<longrightarrow> length m = length ts"
  by (auto simp: demo_library_def offline_library_def split: if_splits)

lemma demo_build:
  "create_chunks_and_embeddings demo_library three_documents = (built_index, True)"
  by code_simp

lemma offline_build:
  "create_chunks_and_embeddings offline_library three_documents
     = (three_documents\<lparr>text_chunks := three_doc_chunks\<rparr>, False)"
  by code_simp

lemma demo_valid:
  "is_cache_valid demo_library (storage_of complete_files) one_second (get_cache_path demo_library ''corpus'')"
  "is_cache_valid demo_library (storage_of partial_files) one_second (get_cache_path demo_library ''corpus'')"
  "is_cache_valid demo_library (storage_of files_without_keyword_index) one_second (get_cache_path demo_library ''corpus'')"
  "is_cache_valid demo_library (storage_of two_chunk_files) one_second (get_cache_path demo_library ''corpus'')"
  "is_cache_valid demo_library (storage_of no_chunk_files) one_second (get_cache_path demo_library ''corpus'')"
  by code_simp+

lemma demo_load:
  "load_from_cache demo_library (storage_of complete_files) one_second empty_index ''corpus''
     = (built_index\<lparr>pdf_contents := []\<rparr>, True)"
  by code_simp

text \<open>
  C5. When the encoder returns one row per text and \<open>fit_transform\<close> one row per text, a
  build that returns \<open>True\<close> leaves an embedding matrix and a TF-IDF matrix with as many
  rows as there are chunks; when the encoder works text by text, row \<open>i\<close> of the
  embedding matrix is the embedding of chunk \<open>i\<close>. When some batch raises at every
  attempt, the build returns \<open>False\<close> and \<open>chunk_embeddings\<close> is left as it was
  (\<open>None\<close> on a fresh instance).
\<close>

theorem build_keeps_rows_aligned:
  assumes "create_chunks_and_embeddings lib self = (self', ok)"
    and "\<forall>i a b vs. encode_batch lib i a b = Some vs \<longrightarrow> length vs = length b"
    and "\<forall>ts k m. fit_transform lib ts = Some (k, m) \<longrightarrow> length m = length ts"
  shows "(ok \<longrightarrow> (\<exists>E k M. chunk_embeddings self' = Some E \<and> length E = length (text_chunks self')
               \<and> tfidf_vectorizer self' = Some k \<and> tfidf_matrix self' = Some M
               \<and> length M = length (text_chunks self')))
       \<and> (ok \<and> (\<forall>i a b vs. encode_batch lib i a b = Some vs \<longrightarrow> vs = map enc b)
            \<longrightarrow> chunk_embeddings self' = Some (map enc (map chunk_text (text_chunks self'))))
       \<and> ((\<exists>j<length (text_chunks self'). BATCH_SIZE dvd j
              \<and> (\<forall>a<MAX_RETRIES. encode_batch lib j a
                      (take BATCH_SIZE (drop j (map chunk_text (text_chunks self')))) = None))
            \<longrightarrow> \<not> ok \<and> chunk_embeddings self' = chunk_embeddings self)"
proof -
  let ?texts = "map chunk_text (built_chunks lib self)"
  note c = create_cases[OF assms(1)]
  then have tc: "text_chunks self' = built_chunks lib self" by blast
  have p1: "\<exists>E k M. chunk_embeddings self' = Some E \<and> length E = length (text_chunks self')
               \<and> tfidf_vectorizer self' = Some k \<and> tfidf_matrix self' = Some M
               \<and> length M = length (text_chunks self')" if ok
  proof -
    from c that obtain ebs k M where e: "encode_batches lib 0 ?texts = Some ebs"
      "chunk_embeddings self' = Some (concat ebs)" "fit_transform lib ?texts = Some (k, M)"
      "tfidf_vectorizer self' = Some k" "tfidf_matrix self' = Some M"
      by auto
    from encode_batches_rows[OF assms(2) e(1)] have "length (concat ebs) = length (text_chunks self')"
      by (simp add: tc)
    moreover from assms(3) e(3) have "length M = length (text_chunks self')" by (auto simp: tc)
    ultimately show ?thesis using e(2,4,5) by blast
  qed
  have p2: "chunk_embeddings self' = Some (map enc (map chunk_text (text_chunks self')))"
    if ok "\<forall>i a b vs. encode_batch lib i a b = Some vs \<longrightarrow> vs = map enc b"
  proof -
    from c that(1) obtain ebs where e: "encode_batches lib 0 ?texts = Some ebs"
      "chunk_embeddings self' = Some (concat ebs)"
      by auto
    from encode_batches_in_order[OF that(2) e(1)] e(2) show ?thesis by (simp add: tc)
  qed
  have p3: "\<not> ok \<and> chunk_embeddings self' = chunk_embeddings self"
    if "\<exists>j<length (text_chunks self'). BATCH_SIZE dvd j
              \<and> (\<forall>a<MAX_RETRIES. encode_batch lib j a
                      (take BATCH_SIZE (drop j (map chunk_text (text_chunks self')))) = None)"
  proof -
    from that obtain j where j: "j < length ?texts" "BATCH_SIZE dvd j"
      "\<forall>a<MAX_RETRIES. encode_batch lib j a (take BATCH_SIZE (drop j ?texts)) = None"
      by (auto simp: tc)
    from j(3) have "with_retries (\<lambda>attempt. encode_batch lib j attempt (take BATCH_SIZE (drop j ?texts))) = None"
      by (rule with_retries_None)
    from encode_batches_failure[OF _ _ this j(1), of 0] j(2)
    have "encode_batches lib 0 ?texts = None" by simp
    with c show ?thesis by auto
  qed
  from p1 p2 p3 show ?thesis by blast
qed

theorem build_keeps_rows_aligned_witness:
  "create_chunks_and_embeddings demo_library three_documents = (built_index, True)
   \<and> chunk_embeddings built_index = Some [[1, 0], [1, 0], [1, 0]]
   \<and> tfidf_matrix built_index = Some [[1], [1], [1]]
   \<and> length (text_chunks built_index) = 3
   \<and> create_chunks_and_embeddings offline_library three_documents
       = (three_documents\<lparr>text_chunks := three_doc_chunks\<rparr>, False)
   \<and> encode_batch offline_library 0 0 (take BATCH_SIZE (drop 0 (map chunk_text three_doc_chunks))) = None
   \<and> encode_batch offline_library 0 1 (take BATCH_SIZE (drop 0 (map chunk_text three_doc_chunks))) = None
   \<and> chunk_embeddings (three_documents\<lparr>text_chunks := three_doc_chunks\<rparr>) = None"
proof -
  from build_keeps_rows_aligned[OF demo_build demo_library_rows(1,2)]
  obtain E k M where "chunk_embeddings built_index = Some E" "length E = length (text_chunks built_index)"
    "tfidf_matrix built_index = Some M" "length M = length (text_chunks built_index)"
    by blast
  then have a: "chunk_embeddings built_index = Some [[1, 0], [1, 0], [1, 0]]"
    "tfidf_matrix built_index = Some [[1], [1], [1]]" "length (text_chunks built_index) = 3"
    by (simp_all add: built_index_def three_doc_chunks_def)
  have fail: "\<exists>j<length (text_chunks (three_documents\<lparr>text_chunks := three_doc_chunks\<rparr>)). BATCH_SIZE dvd j
      \<and> (\<forall>a<MAX_RETRIES. encode_batch offline_library j a
            (take BATCH_SIZE (drop j (map chunk_text
               (text_chunks (three_documents\<lparr>text_chunks := three_doc_chunks\<rparr>))))) = None)"
    by (rule exI[of _ 0]) (simp add: three_doc_chunks_def offline_library_def)
  with build_keeps_rows_aligned[OF offline_build demo_library_rows(3,4)]
  have "chunk_embeddings (three_documents\<lparr>text_chunks := three_doc_chunks\<rparr>)
          = chunk_embeddings three_documents" by blast
  then have b: "chunk_embeddings (three_documents\<lparr>text_chunks := three_doc_chunks\<rparr>) = None"
    by (simp add: three_documents_def empty_index_def)
  have c: "encode_batch offline_library 0 0 (take BATCH_SIZE (drop 0 (map chunk_text three_doc_chunks))) = None"
    "encode_batch offline_library 0 1 (take BATCH_SIZE (drop 0 (map chunk_text three_doc_chunks))) = None"
    by (simp_all add: offline_library_def)
  from a b c demo_build offline_build show ?thesis by blast
qed

text \<open>
  C6. \<open>load_from_cache\<close> returns \<open>True\<close> only when the metadata file of the fingerprint's
  cache path is there with a \<open>cached_at\<close> that parses and is less than
  \<open>CACHE_DURATION_DAYS\<close> days before now, and the chunks file and the embeddings file are
  there and load. When the entry is not valid, the instance is left as it was and \<open>False\<close>
  is returned; a directory with the embeddings file missing never loads.
\<close>

theorem load_requires_valid_complete_entry:
  "(snd (load_from_cache lib storage now self identifier) \<longrightarrow>
      (\<exists>metadata s t. meta_json (storage (get_cache_path lib identifier)) = Content metadata
          \<and> cached_at metadata = Some s \<and> fromisoformat lib s = Some t
          \<and> now - t < timedelta_days CACHE_DURATION_DAYS)
      \<and> readable (chunks_json (storage (get_cache_path lib identifier)))
      \<and> readable (embeddings_npy (storage (get_cache_path lib identifier))))
   \<and> (\<not> is_cache_valid lib storage now (get_cache_path lib identifier) \<longrightarrow>
        load_from_cache lib storage now self identifier = (self, False))
   \<and> (\<not> readable (embeddings_npy (storage (get_cache_path lib identifier))) \<longrightarrow>
        \<not> snd (load_from_cache lib storage now self identifier))"
proof -
  let ?path = "get_cache_path lib identifier"
  let ?files = "storage ?path"
  have inv: "load_from_cache lib storage now self identifier = (self, False)"
    if "\<not> is_cache_valid lib storage now ?path"
    using that by (simp add: load_from_cache_def Let_def)
  have valid: "\<exists>metadata s t. meta_json ?files = Content metadata
          \<and> cached_at metadata = Some s \<and> fromisoformat lib s = Some t
          \<and> now - t < timedelta_days CACHE_DURATION_DAYS"
    if "is_cache_valid lib storage now ?path"
    using that by (auto simp: is_cache_valid_def split: artifact.splits option.splits if_splits)
  have ok: "is_cache_valid lib storage now ?path \<and> readable (chunks_json ?files)
            \<and> readable (embeddings_npy ?files)"
    if "snd (load_from_cache lib storage now self identifier)"
    using that
    by (auto simp: load_from_cache_def Let_def readable_def split: artifact.splits if_splits)
  from inv valid ok show ?thesis by blast
qed

theorem load_requires_valid_complete_entry_witness:
  "snd (load_from_cache demo_library (storage_of complete_files) one_second empty_index ''corpus'')
   \<and> readable (embeddings_npy (storage_of complete_files (get_cache_path demo_library ''corpus'')))
   \<and> readable (chunks_json (storage_of complete_files (get_cache_path demo_library ''corpus'')))
   \<and> is_cache_valid demo_library (storage_of partial_files) one_second (get_cache_path demo_library ''corpus'')
   \<and> readable (chunks_json (storage_of partial_files (get_cache_path demo_library ''corpus'')))
   \<and> \<not> readable (embeddings_npy (storage_of partial_files (get_cache_path demo_library ''corpus'')))
   \<and> \<not> snd (load_from_cache demo_library (storage_of partial_files) one_second empty_index ''corpus'')
   \<and> \<not> is_cache_valid demo_library (storage_of complete_files) (timedelta_days 90)
          (get_cache_path demo_library ''corpus'')
   \<and> load_from_cache demo_library (storage_of complete_files) (timedelta_days 90) empty_index ''corpus''
       = (empty_index, False)"
proof -
  have s: "snd (load_from_cache demo_library (storage_of complete_files) one_second empty_index ''corpus'')"
    unfolding demo_load by simp
  with load_requires_valid_complete_entry[of demo_library "storage_of complete_files" one_second
      empty_index "''corpus''"]
  have a: "readable (embeddings_npy (storage_of complete_files (get_cache_path demo_library ''corpus'')))"
    "readable (chunks_json (storage_of complete_files (get_cache_path demo_library ''corpus'')))"
    by blast+
  have p: "readable (chunks_json (storage_of partial_files (get_cache_path demo_library ''corpus'')))"
    "\<not> readable (embeddings_npy (storage_of partial_files (get_cache_path demo_library ''corpus'')))"
    by (simp_all add: storage_of_def partial_files_def complete_files_def readable_def)
  with load_requires_valid_complete_entry[of demo_library "storage_of partial_files" one_second
      empty_index "''corpus''"]
  have b: "\<not> snd (load_from_cache demo_library (storage_of partial_files) one_second empty_index ''corpus'')"
    by blast
  have e: "\<not> is_cache_valid demo_library (storage_of complete_files) (timedelta_days 90)
          (get_cache_path demo_library ''corpus'')"
    by code_simp
  with load_requires_valid_complete_entry[of demo_library "storage_of complete_files" "timedelta_days 90"
      empty_index "''corpus''"]
  have c: "load_from_cache demo_library (storage_of complete_files) (timedelta_days 90) empty_index ''corpus''
       = (empty_index, False)"
    by blast
  from s a p b e c demo_valid(2) show ?thesis by blast
qed

text \<open>
  C10, as the code has it. When the entry is valid, the chunks and the embeddings load
  and the vectorizer file is missing, \<open>load_from_cache\<close> fits a new TF-IDF index on the
  loaded chunk texts and returns \<open>True\<close>, provided the fit does not raise; when the fit
  raises, the load returns \<open>False\<close>. With an empty chunk list nothing is fitted and the
  load returns \<open>True\<close>.
\<close>

theorem missing_keyword_index_is_rebuilt:
  assumes "is_cache_valid lib storage now (get_cache_path lib identifier)"
    and "chunks_json (storage (get_cache_path lib identifier)) = Content cached"
    and "embeddings_npy (storage (get_cache_path lib identifier)) = Content E"
    and "tfidf_vectorizer_pkl (storage (get_cache_path lib identifier)) = Missing"
  shows "(cached = [] \<longrightarrow> load_from_cache lib storage now self identifier
            = (self\<lparr>text_chunks := [], chunk_embeddings := Some E\<rparr>, True))
       \<and> (\<forall>k M. cached \<noteq> [] \<and> fit_transform lib (map chunk_text cached) = Some (k, M) \<longrightarrow>
            load_from_cache lib storage now self identifier
            = (self\<lparr>text_chunks := cached, chunk_embeddings := Some E,
                    tfidf_vectorizer := Some k, tfidf_matrix := Some M\<rparr>, True))
       \<and> (cached \<noteq> [] \<and> fit_transform lib (map chunk_text cached) = None \<longrightarrow>
            \<not> snd (load_from_cache lib storage now self identifier))"
proof -
  from assms have "load_from_cache lib storage now self identifier
      = create_tfidf_index lib (self\<lparr>text_chunks := cached, chunk_embeddings := Some E\<rparr>)"
    by (simp add: load_from_cache_def Let_def)
  then show ?thesis by (auto simp: create_tfidf_index_def Let_def)
qed

theorem missing_keyword_index_witness:
  "is_cache_valid demo_library (storage_of files_without_keyword_index) one_second
      (get_cache_path demo_library ''corpus'')
   \<and> chunks_json (storage_of files_without_keyword_index (get_cache_path demo_library ''corpus''))
       = Content three_doc_chunks
   \<and> embeddings_npy (storage_of files_without_keyword_index (get_cache_path demo_library ''corpus''))
       = Content [[1, 0], [1, 0], [1, 0]]
   \<and> tfidf_vectorizer_pkl (storage_of files_without_keyword_index (get_cache_path demo_library ''corpus''))
       = Missing
   \<and> fit_transform demo_library (map chunk_text three_doc_chunks) = Some ((), [[1], [1], [1]])
   \<and> load_from_cache demo_library (storage_of files_without_keyword_index) one_second empty_index ''corpus''
       = (empty_index\<lparr>text_chunks := three_doc_chunks, chunk_embeddings := Some [[1, 0], [1, 0], [1, 0]],
                      tfidf_vectorizer := Some (), tfidf_matrix := Some [[1], [1], [1]]\<rparr>, True)
   \<and> load_from_cache demo_library (storage_of no_chunk_files) one_second empty_index ''corpus''
       = (empty_index\<lparr>text_chunks := [], chunk_embeddings := Some []\<rparr>, True)"
proof -
  have f: "chunks_json (storage_of files_without_keyword_index (get_cache_path demo_library ''corpus''))
       = Content three_doc_chunks"
    "embeddings_npy (storage_of files_without_keyword_index (get_cache_path demo_library ''corpus''))
       = Content [[1, 0], [1, 0], [1, 0]]"
    "tfidf_vectorizer_pkl (storage_of files_without_keyword_index (get_cache_path demo_library ''corpus''))
       = Missing"
    by (simp_all add: storage_of_def files_without_keyword_index_def complete_files_def)
  have g: "three_doc_chunks \<noteq> []"
    "fit_transform demo_library (map chunk_text three_doc_chunks) = Some ((), [[1], [1], [1]])"
    by (simp_all add: three_doc_chunks_def demo_library_def)
  from missing_keyword_index_is_rebuilt[OF demo_valid(3) f, of empty_index] g
  have a: "load_from_cache demo_library (storage_of files_without_keyword_index) one_second empty_index ''corpus''
       = (empty_index\<lparr>text_chunks := three_doc_chunks, chunk_embeddings := Some [[1, 0], [1, 0], [1, 0]],
                      tfidf_vectorizer := Some (), tfidf_matrix := Some [[1], [1], [1]]\<rparr>, True)"
    by blast
  have n: "chunks_json (storage_of no_chunk_files (get_cache_path demo_library ''corpus'')) = Content []"
    "embeddings_npy (storage_of no_chunk_files (get_cache_path demo_library ''corpus'')) = Content []"
    "tfidf_vectorizer_pkl (storage_of no_chunk_files (get_cache_path demo_library ''corpus'')) = Missing"
    by (simp_all add: storage_of_def no_chunk_files_def)
  from missing_keyword_index_is_rebuilt[OF demo_valid(5) n, of empty_index]
  have b: "load_from_cache demo_library (storage_of no_chunk_files) one_second empty_index ''corpus''
       = (empty_index\<lparr>text_chunks := [], chunk_embeddings := Some []\<rparr>, True)"
    by blast
  from demo_valid(3) f g(2) a b show ?thesis by blast
qed

text \<open>
  C10 as stated fails: a valid entry with two chunks, their embeddings and no vectorizer
  file does not load, since the TF-IDF fit raises on fewer than three texts.
\<close>

theorem rebuild_failure_fails_load_counterexample:
  "is_cache_valid demo_library (storage_of two_chunk_files) one_second
      (get_cache_path demo_library ''corpus'')
   \<and> readable (chunks_json (storage_of two_chunk_files (get_cache_path demo_library ''corpus'')))
   \<and> readable (embeddings_npy (storage_of two_chunk_files (get_cache_path demo_library ''corpus'')))
   \<and> tfidf_vectorizer_pkl (storage_of two_chunk_files (get_cache_path demo_library ''corpus'')) = Missing
   \<and> \<not> snd (load_from_cache demo_library (storage_of two_chunk_files) one_second empty_index ''corpus'')"
  by code_simp

end
